theory Spec2Isabelle
  imports Complex_Main
begin

section \<open>Numbers\<close>

text \<open>
  The plugin computes with C++ \<open>float\<close> and \<open>double\<close>.  Values are modelled as
  \<^typ>\<open>real\<close>.  The scene interpolation, the macro curves and the macro engine take
  the rounding function applied after each \<open>float\<close> operation as an argument
  \<open>rnd\<close>: with the identity they compute in exact arithmetic, with \<open>round32\<close>
  (IEEE-754 binary32, below) they compute what the machine computes when every operation
  rounds on its own (no fused multiply-add).  The processor functions use \<open>round32\<close>.  The literals of the parameter table and of the default
  mappings stand for their binary32 values (\<open>0.2f\<close> is 13421773/67108864).  The delay
  module is given in exact arithmetic, its literals at their decimal value.  Not-a-number,
  infinities and the sign of zero are not represented.  C++ \<open>int\<close> values are modelled
  as \<^typ>\<open>int\<close>; none of the modelled integer computations can overflow for the inputs
  considered.
\<close>

text \<open>\<open>std::clamp (v, lo, hi)\<close>: \<open>(v < lo) ? lo : (hi < v) ? hi : v\<close>.\<close>

definition std_clamp :: "'a::linorder \<Rightarrow> 'a \<Rightarrow> 'a \<Rightarrow> 'a" where
  "std_clamp v lo hi = (if v < lo then lo else if hi < v then hi else v)"

text \<open>\<open>std::min (a, b)\<close>: \<open>(b < a) ? b : a\<close>.\<close>

definition std_min :: "'a::linorder \<Rightarrow> 'a \<Rightarrow> 'a" where
  "std_min a b = (if b < a then b else a)"

text \<open>
  \<open>static_cast<int>\<close> of a floating-point value truncates towards zero when the
  truncated value fits into a 32-bit \<open>int\<close>.  Otherwise the conversion is undefined in
  C++; the model takes what the conversion instruction of x86-64 delivers, \<open>-2\<^sup>3\<^sup>1\<close>.
\<close>

definition to_int :: "real \<Rightarrow> int" where
  "to_int x =
     (if - 2147483649 < x \<and> x < 2147483648
      then (if 0 \<le> x then \<lfloor>x\<rfloor> else \<lceil>x\<rceil>)
      else - 2147483648)"

text \<open>
  IEEE-754 binary32 rounding (round to nearest, ties to even) of a real number.  A
  binary32 number is an integer multiple \<open>n \<sqdot> 2\<^sup>e\<close> with \<open>\<bar>n\<bar> < 2\<^sup>2\<^sup>4\<close> and
  \<open>-149 \<le> e \<le> 104\<close>.  \<open>ulp_exponent x\<close> is the exponent \<open>e\<close> of the grid of binary32
  numbers around \<open>x\<close>: the least \<open>e \<ge> -149\<close> with \<open>\<bar>x\<bar> < 2\<^sup>e\<^sup>+\<^sup>2\<^sup>4\<close>.  Values of
  magnitude \<open>2\<^sup>1\<^sup>2\<^sup>8\<close> and more, which the machine rounds to an infinity, are outside
  the model (they are put on the coarsest grid).
\<close>

definition ulp_exponent :: "real \<Rightarrow> int" where
  "ulp_exponent x =
     (case find (\<lambda>e. \<bar>x\<bar> < 2 powi (e + 24)) [- 149..104] of Some e \<Rightarrow> e | None \<Rightarrow> 104)"

definition round_even :: "real \<Rightarrow> int" where
  "round_even q =
     (let f = \<lfloor>q\<rfloor>; r = q - of_int f
      in if r < 1 / 2 then f else if 1 / 2 < r then f + 1 else if even f then f else f + 1)"

definition round32 :: "real \<Rightarrow> real" where
  "round32 x = (let u = 2 powi (ulp_exponent x) in of_int (round_even (x / u)) * u)"

section \<open>Scene data (SceneData.h)\<close>

text \<open>
  \<open>SceneParam::Index\<close>: the fourteen scene parameters in their fixed order, and
  \<open>kCount\<close>.
\<close>

definition filtMode :: nat where "filtMode = 0"
definition filtCutoff :: nat where "filtCutoff = 1"
definition filtReso :: nat where "filtReso = 2"
definition driveAmt :: nat where "driveAmt = 3"
definition driveTone :: nat where "driveTone = 4"
definition delaySync :: nat where "delaySync = 5"
definition delayFb :: nat where "delayFb = 6"
definition delayTone :: nat where "delayTone = 7"
definition delayWidth :: nat where "delayWidth = 8"
definition delayPingP :: nat where "delayPingP = 9"
definition revSize :: nat where "revSize = 10"
definition revDamp :: nat where "revDamp = 11"
definition revPreDelay :: nat where "revPreDelay = 12"
definition revWidth :: nat where "revWidth = 13"
definition kCount :: nat where "kCount = 14"

text \<open>
  \<open>SceneParam::Info\<close>.  The identifier string of each entry comes from \<open>Params.h\<close>
  and plays no role in the functions below; it is left out.
\<close>

record Info =
  minVal :: real
  maxVal :: real
  defaultVal :: real
  isDiscrete :: bool

text \<open>
  The canonical table \<open>SceneParam::info\<close>, in the order of the index enumeration.  The
  literals that are not binary32 numbers are written as the binary32 number they denote:
  \<open>0.2f\<close> = 13421773/67108864, \<open>0.95f\<close> = 15938355/16777216,
  \<open>0.7f\<close> = 11744051/16777216, \<open>0.35f\<close> = 11744051/33554432 and
  \<open>0.8f\<close> = 13421773/16777216.
\<close>

definition info :: "Info list" where
  "info =
    [\<lparr>minVal = 0, maxVal = 2, defaultVal = 0, isDiscrete = True\<rparr>,
     \<lparr>minVal = 20, maxVal = 20000, defaultVal = 8000, isDiscrete = False\<rparr>,
     \<lparr>minVal = 0, maxVal = 1, defaultVal = 13421773 / 67108864, isDiscrete = False\<rparr>,
     \<lparr>minVal = 0, maxVal = 1, defaultVal = 0, isDiscrete = False\<rparr>,
     \<lparr>minVal = 0, maxVal = 1, defaultVal = 5 / 10, isDiscrete = False\<rparr>,
     \<lparr>minVal = 0, maxVal = 7, defaultVal = 2, isDiscrete = True\<rparr>,
     \<lparr>minVal = 0, maxVal = 15938355 / 16777216, defaultVal = 25 / 100, isDiscrete = False\<rparr>,
     \<lparr>minVal = 0, maxVal = 1, defaultVal = 5 / 10, isDiscrete = False\<rparr>,
     \<lparr>minVal = 0, maxVal = 1, defaultVal = 11744051 / 16777216, isDiscrete = False\<rparr>,
     \<lparr>minVal = 0, maxVal = 1, defaultVal = 0, isDiscrete = True\<rparr>,
     \<lparr>minVal = 0, maxVal = 1, defaultVal = 11744051 / 33554432, isDiscrete = False\<rparr>,
     \<lparr>minVal = 0, maxVal = 1, defaultVal = 5 / 10, isDiscrete = False\<rparr>,
     \<lparr>minVal = 0, maxVal = 200, defaultVal = 10, isDiscrete = False\<rparr>,
     \<lparr>minVal = 0, maxVal = 1, defaultVal = 13421773 / 16777216, isDiscrete = False\<rparr>]"

text \<open>\<open>struct SceneParams\<close>: the array \<open>float values[kCount]\<close>, here the field \<open>vals\<close>.\<close>

record SceneParams =
  vals :: "real list"

text \<open>\<open>SceneParams::createDefault\<close>: every value from the table's defaults.\<close>

definition createDefault :: SceneParams where
  "createDefault = \<lparr>vals = map (\<lambda>i. defaultVal (info ! i)) [0..<kCount]\<rparr>"

text \<open>
  \<open>SceneParams::morph (a, b, t)\<close>.  The loop over \<open>i = 0 .. kCount - 1\<close> fills
  \<open>result.values[i]\<close>; discrete entries switch at \<open>t < 0.5f\<close>, the others compute
  \<open>a.values[i] + t * (b.values[i] - a.values[i])\<close>.  Each of the three arithmetic
  operations of that expression delivers its result through \<open>rnd\<close>.
\<close>

definition morph_value :: "(real \<Rightarrow> real) \<Rightarrow> SceneParams \<Rightarrow> SceneParams \<Rightarrow> real \<Rightarrow> nat \<Rightarrow> real" where
  "morph_value rnd a b t i =
     (if isDiscrete (info ! i)
      then (if t < 5 / 10 then vals a ! i else vals b ! i)
      else rnd (vals a ! i + rnd (t * rnd (vals b ! i - vals a ! i))))"

definition morph_with :: "(real \<Rightarrow> real) \<Rightarrow> SceneParams \<Rightarrow> SceneParams \<Rightarrow> real \<Rightarrow> SceneParams" where
  "morph_with rnd a b t = \<lparr>vals = map (morph_value rnd a b t) [0..<kCount]\<rparr>"

text \<open>The interpolation in exact arithmetic.\<close>

definition morph :: "SceneParams \<Rightarrow> SceneParams \<Rightarrow> real \<Rightarrow> SceneParams" where
  "morph a b t = morph_with (\<lambda>x. x) a b t"

text \<open>
  The interpolation as the machine computes it: the operands are \<open>float\<close>, so each
  operation rounds to binary32.
\<close>

definition morph32 :: "SceneParams \<Rightarrow> SceneParams \<Rightarrow> real \<Rightarrow> SceneParams" where
  "morph32 a b t = morph_with round32 a b t"

text \<open>\<open>SceneParams::clampToRanges\<close>.\<close>

definition clampToRanges :: "SceneParams \<Rightarrow> SceneParams" where
  "clampToRanges s =
     s\<lparr>vals := map (\<lambda>i. std_clamp (vals s ! i) (minVal (info ! i)) (maxVal (info ! i)))
                      [0..<kCount]\<rparr>"

definition kNumScenes :: nat where "kNumScenes = 8"

section \<open>Macro engine (MacroEngine.h)\<close>

text \<open>
  \<open>enum class MacroCurve\<close>, with its closing enumerator \<open>kCount\<close> (named
  \<open>curveCount\<close> here, since \<open>kCount\<close> is the number of scene parameters).
\<close>

datatype MacroCurve = linear | exponential | logarithmic | sCurve | curveCount

text \<open>
  \<open>applyMacroCurve\<close>: the input is clamped to \<open>[0, 1]\<close>, then the \<open>switch\<close>
  selects the shape; \<open>linear\<close> and \<open>default\<close> return the clamped input.  Every
  \<open>float\<close> operation (\<open>x * x\<close>, \<open>std::sqrt (x)\<close>, \<open>2.0f * x\<close>, the subtraction
  from \<open>3.0f\<close> and the final product) delivers its result through \<open>rnd\<close>.
\<close>

definition applyMacroCurve :: "(real \<Rightarrow> real) \<Rightarrow> real \<Rightarrow> MacroCurve \<Rightarrow> real" where
  "applyMacroCurve rnd x0 c =
     (let x = std_clamp x0 0 1
      in case c of
           exponential \<Rightarrow> rnd (x * x)
         | logarithmic \<Rightarrow> rnd (sqrt x)
         | sCurve \<Rightarrow> rnd (rnd (x * x) * rnd (3 - rnd (2 * x)))
         | linear \<Rightarrow> x
         | curveCount \<Rightarrow> x)"

text \<open>\<open>struct MacroTarget\<close>.\<close>

record MacroTarget =
  sceneParamIndex :: int
  amount :: real
  curve :: MacroCurve

text \<open>
  \<open>class MacroEngine\<close>: the member \<open>mappings_\<close>, an array of \<open>kNumMacros\<close>
  target vectors.
\<close>

record MacroEngine =
  mappings :: "MacroTarget list list"

definition kNumMacros :: nat where "kNumMacros = 4"

text \<open>\<open>MacroEngine::setMappings\<close> replaces one macro's whole target list.\<close>

definition setMappings :: "int \<Rightarrow> MacroTarget list \<Rightarrow> MacroEngine \<Rightarrow> MacroEngine" where
  "setMappings macroIndex targets eng =
     (if 0 \<le> macroIndex \<and> macroIndex < int kNumMacros
      then eng\<lparr>mappings := (mappings eng)[nat macroIndex := targets]\<rparr>
      else eng)"

text \<open>\<open>MacroEngine::clearAllMappings\<close>.\<close>

definition clearAllMappings :: "MacroEngine \<Rightarrow> MacroEngine" where
  "clearAllMappings eng = eng\<lparr>mappings := map (\<lambda>m. []) (mappings eng)\<rparr>"

text \<open>
  The body of the inner loop of \<open>MacroEngine::apply\<close>, for one target and the raw value
  \<open>rawMacroVal\<close> of its macro: a target whose index is outside \<open>0 .. kCount - 1\<close> and
  a target on a discrete parameter are passed over (\<open>continue\<close>); otherwise the curved
  macro value, scaled by the amount and the width of the range, is added to the current
  value and the sum is clamped to the range.  The subtraction, the two products of
  \<open>curvedVal * target.amount * range\<close> and the sum go through \<open>rnd\<close>.
\<close>

definition apply_target ::
  "(real \<Rightarrow> real) \<Rightarrow> real \<Rightarrow> SceneParams \<Rightarrow> MacroTarget \<Rightarrow> SceneParams" where
  "apply_target rnd rawMacroVal params target =
     (let idx = sceneParamIndex target
      in if idx < 0 \<or> idx \<ge> int kCount then params
         else
           let inf = info ! nat idx
           in if isDiscrete inf then params
              else
                let curvedVal = applyMacroCurve rnd rawMacroVal (curve target);
                    range = rnd (maxVal inf - minVal inf);
                    offset = rnd (rnd (curvedVal * amount target) * range)
                in params\<lparr>vals := (vals params)
                     [nat idx := std_clamp (rnd (vals params ! nat idx + offset))
                                   (minVal inf) (maxVal inf)]\<rparr>)"

text \<open>
  The body of the outer loop of \<open>MacroEngine::apply\<close>, for macro \<open>m\<close>: a macro whose
  value is below \<open>0.001f\<close> is passed over, otherwise its targets are walked in order.
  The threshold \<open>0.001f\<close> is the binary32 number 8589935/8589934592, the least one
  that is not below 1/1000; a \<open>float\<close> is below the one exactly when it is below the
  other, and the comparison is written with 1/1000.
\<close>

definition apply_macro ::
  "(real \<Rightarrow> real) \<Rightarrow> MacroEngine \<Rightarrow> real list \<Rightarrow> SceneParams \<Rightarrow> nat \<Rightarrow> SceneParams" where
  "apply_macro rnd eng macroValues params m =
     (let rawMacroVal = macroValues ! m
      in if rawMacroVal < 1 / 1000 then params
         else foldl (apply_target rnd rawMacroVal) params (mappings eng ! m))"

text \<open>
  \<open>MacroEngine::apply (params, macroValues)\<close>: the loop over \<open>m = 0 .. kNumMacros - 1\<close>.
  The C++ function updates \<open>params\<close> in place; the model returns the updated scene.
\<close>

definition MacroEngine_apply ::
  "(real \<Rightarrow> real) \<Rightarrow> MacroEngine \<Rightarrow> SceneParams \<Rightarrow> real list \<Rightarrow> SceneParams" where
  "MacroEngine_apply rnd eng params macroValues =
     foldl (apply_macro rnd eng macroValues) params [0..<kNumMacros]"

text \<open>
  \<open>MacroEngine::initDefaultMappings\<close>; the targets take the default curve \<open>linear\<close>.
  The amounts are the binary32 values of \<open>0.3f\<close> (5033165/16777216), \<open>0.7f\<close>,
  \<open>0.4f\<close> (13421773/33554432) and \<open>0.2f\<close>.
\<close>

definition initDefaultMappings :: MacroEngine where
  "initDefaultMappings = \<lparr>mappings =
     [[\<lparr>sceneParamIndex = int filtCutoff, amount = 5 / 10, curve = linear\<rparr>,
       \<lparr>sceneParamIndex = int filtReso, amount = 5033165 / 16777216, curve = linear\<rparr>],
      [\<lparr>sceneParamIndex = int driveAmt, amount = 11744051 / 16777216, curve = linear\<rparr>,
       \<lparr>sceneParamIndex = int driveTone, amount = - (5033165 / 16777216), curve = linear\<rparr>],
      [\<lparr>sceneParamIndex = int delayFb, amount = 13421773 / 33554432, curve = linear\<rparr>,
       \<lparr>sceneParamIndex = int revSize, amount = 5 / 10, curve = linear\<rparr>,
       \<lparr>sceneParamIndex = int revPreDelay, amount = 13421773 / 67108864, curve = linear\<rparr>],
      [\<lparr>sceneParamIndex = int delayWidth, amount = 5033165 / 16777216, curve = linear\<rparr>,
       \<lparr>sceneParamIndex = int revWidth, amount = 13421773 / 67108864, curve = linear\<rparr>]]\<rparr>"

section \<open>Delay module (DelayModule.h)\<close>

text \<open>
  The module owns a \<open>juce::SmoothedValue\<close> (the smoothed delay time) and two
  \<open>juce::dsp::StateVariableTPTFilter\<close> objects (the tone filters).  These classes belong
  to the JUCE library, not to the repository; the library calls the module makes are
  arguments of the model, collected in one record.  \<open>'s\<close> is the state of a smoothed
  value and \<open>'f\<close> the state of a filter object.
\<close>

record ('s, 'f) juce_ops =
  smoothed_reset :: "real \<Rightarrow> real \<Rightarrow> 's \<Rightarrow> 's"
  setCurrentAndTargetValue :: "real \<Rightarrow> 's \<Rightarrow> 's"
  setTargetValue :: "real \<Rightarrow> 's \<Rightarrow> 's"
  getNextValue :: "'s \<Rightarrow> real \<times> 's"
  filter_prepare :: "real \<Rightarrow> 'f \<Rightarrow> 'f"
  setType_lowpass :: "'f \<Rightarrow> 'f"
  setCutoffFrequency :: "real \<Rightarrow> 'f \<Rightarrow> 'f"
  setResonance :: "real \<Rightarrow> 'f \<Rightarrow> 'f"
  processSample :: "nat \<Rightarrow> real \<Rightarrow> 'f \<Rightarrow> real \<times> 'f"

text \<open>The private members of \<open>class DelayModule\<close>.\<close>

record ('s, 'f) DelayModule =
  sampleRate :: real
  numChannels :: int
  bufSize :: int
  delayLine :: "real list list"
  writePos :: "int list"
  fb :: real
  width :: real
  isPingPong :: bool
  toneLPF :: "'f list"
  smoothDelay :: 's

text \<open>\<open>std::vector::resize (n, 0.0f)\<close>: existing elements stay, new ones are zero.\<close>

definition resize0 :: "nat \<Rightarrow> real list \<Rightarrow> real list" where
  "resize0 n xs = take n xs @ replicate (n - length xs) 0"

text \<open>
  \<open>DelayModule::prepare (spec)\<close>, with the two fields of the \<open>ProcessSpec\<close> it reads.
\<close>

definition prepare ::
  "('s, 'f) juce_ops \<Rightarrow> real \<Rightarrow> nat \<Rightarrow> ('s, 'f) DelayModule \<Rightarrow> ('s, 'f) DelayModule" where
  "prepare J spec_sampleRate spec_numChannels st =
     (let size = to_int (spec_sampleRate * 2)
      in st\<lparr>sampleRate := spec_sampleRate,
            numChannels := int spec_numChannels,
            bufSize := size,
            delayLine := map (resize0 (nat size)) (delayLine st),
            writePos := map (\<lambda>w. 0) (writePos st),
            toneLPF := map (\<lambda>f. setResonance J (707 / 1000)
                              (setCutoffFrequency J 20000
                                (setType_lowpass J (filter_prepare J spec_sampleRate f))))
                         (toneLPF st),
            smoothDelay := setCurrentAndTargetValue J (real_of_int (size div 4))
                             (smoothed_reset J spec_sampleRate (5 / 100) (smoothDelay st))\<rparr>)"

text \<open>The table \<open>noteBeats\<close> of \<open>setParameters\<close>: note length in beats per sync index.\<close>

definition noteBeats :: "real list" where
  "noteBeats = [125 / 1000, 25 / 100, 5 / 10, 1, 2, 4, 75 / 100, 15 / 10]"

text \<open>
  \<open>DelayModule::setParameters (syncIndex, feedback, tone01, width01, pingPong, bpm)\<close>.
\<close>

definition setParameters ::
  "('s, 'f) juce_ops \<Rightarrow> int \<Rightarrow> real \<Rightarrow> real \<Rightarrow> real \<Rightarrow> bool \<Rightarrow> real \<Rightarrow>
     ('s, 'f) DelayModule \<Rightarrow> ('s, 'f) DelayModule" where
  "setParameters J syncIndex feedback tone01 width01 pingPong bpm st =
     (let idx = std_clamp syncIndex 0 7;
          beats = noteBeats ! nat idx;
          safeBpm = (if bpm > 20 then bpm else 120);
          newDelay = beats * (60 / safeBpm) * sampleRate st;
          newDelay' = std_clamp newDelay 1 (real_of_int (bufSize st - 1));
          toneCutoff = 500 * (40 powr tone01)
      in st\<lparr>fb := std_min feedback (95 / 100),
            width := width01,
            isPingPong := pingPong,
            smoothDelay := setTargetValue J newDelay' (smoothDelay st),
            toneLPF := map (setCutoffFrequency J toneCutoff) (toneLPF st)\<rparr>)"

text \<open>
  \<open>DelayModule::process\<close>, first inner loop: the delayed sample of channel \<open>ch\<close>, read
  at the fractional position \<open>writePos[ch] - currentDelay\<close> by linear interpolation.
\<close>

definition read_delayed :: "('s, 'f) DelayModule \<Rightarrow> real \<Rightarrow> nat \<Rightarrow> real" where
  "read_delayed st currentDelay ch =
     (let readPosF0 = real_of_int (writePos st ! ch) - currentDelay;
          readPosF = (if readPosF0 < 0 then readPosF0 + real_of_int (bufSize st) else readPosF0);
          idx0a = \<lfloor>readPosF\<rfloor>;
          frac = readPosF - real_of_int \<lfloor>readPosF\<rfloor>;
          idx0b = (if idx0a < 0 then idx0a + bufSize st else idx0a);
          idx0 = (if idx0b \<ge> bufSize st then idx0b - bufSize st else idx0b);
          idx1 = (if idx0 + 1 \<ge> bufSize st then 0 else idx0 + 1)
      in delayLine st ! ch ! nat idx0 * (1 - frac) + delayLine st ! ch ! nat idx1 * frac)"

text \<open>
  \<open>DelayModule::process\<close>, second inner loop, for channel \<open>ch\<close> at sample \<open>s\<close>:
  feedback, write into the delay line, width blend, output, advance of the write position.
  \<open>delayed\<close> holds the two delayed samples read before, \<open>channels\<close> the number of
  channels processed.  The state is the module together with the audio buffer (one list
  of samples per channel).
\<close>

definition channel_step ::
  "('s, 'f) juce_ops \<Rightarrow> nat \<Rightarrow> real list \<Rightarrow> nat \<Rightarrow>
     ('s, 'f) DelayModule \<times> real list list \<Rightarrow> nat \<Rightarrow> ('s, 'f) DelayModule \<times> real list list" where
  "channel_step J s delayed channels stb ch =
     (let st = fst stb; buffer = snd stb;
          data_s = buffer ! ch ! s;
          (filteredFeedback, f1) = processSample J ch (delayed ! ch) (toneLPF st ! ch);
          (feedbackSample, f2) =
             (if isPingPong st \<and> channels = 2
              then (let otherCh = 1 - ch;
                        (y, f2) = processSample J ch (delayed ! otherCh) f1
                    in (y * fb st, f2))
              else (filteredFeedback * fb st, f1));
          line = (delayLine st ! ch)[nat (writePos st ! ch) := data_s + feedbackSample];
          wetSample =
             (if width st < 1 \<and> channels = 2
              then (let otherCh = 1 - ch;
                        monoDelay = (delayed ! ch + delayed ! otherCh) * (5 / 10)
                    in monoDelay + width st * (delayed ! ch - monoDelay))
              else delayed ! ch);
          wp = writePos st ! ch + 1;
          wp' = (if wp \<ge> bufSize st then 0 else wp)
      in (st\<lparr>delayLine := (delayLine st)[ch := line],
             toneLPF := (toneLPF st)[ch := f2],
             writePos := (writePos st)[ch := wp']\<rparr>,
          buffer[ch := (buffer ! ch)[s := data_s + wetSample]]))"

text \<open>
  The body of the sample loop of \<open>DelayModule::process\<close>: one step of the smoothed delay
  time, the reads for all channels, then the per-channel work.
\<close>

definition process_sample ::
  "('s, 'f) juce_ops \<Rightarrow> nat \<Rightarrow> ('s, 'f) DelayModule \<times> real list list \<Rightarrow> nat \<Rightarrow>
     ('s, 'f) DelayModule \<times> real list list" where
  "process_sample J channels stb s =
     (let st = fst stb; buffer = snd stb;
          (currentDelay, sm) = getNextValue J (smoothDelay st);
          st1 = st\<lparr>smoothDelay := sm\<rparr>;
          delayed = map (\<lambda>ch. if ch < channels then read_delayed st1 currentDelay ch else 0) [0, 1]
      in foldl (channel_step J s delayed channels) (st1, buffer) [0..<channels])"

text \<open>
  \<open>DelayModule::process (buffer)\<close>.  \<open>numSamples\<close> is the length of the buffer's
  channels, \<open>channels\<close> the smaller of the number of channels and 2.
\<close>

definition process ::
  "('s, 'f) juce_ops \<Rightarrow> ('s, 'f) DelayModule \<Rightarrow> real list list \<Rightarrow>
     ('s, 'f) DelayModule \<times> real list list" where
  "process J st buffer =
     (let numSamples = (case buffer of [] \<Rightarrow> 0 | c # cs \<Rightarrow> length c);
          channels = std_min (length buffer) 2
      in foldl (process_sample J channels) (st, buffer) [0..<numSamples])"

text \<open>
  The feedback sample as the specification words it: the delayed sample (the channel's
  own, or the opposite channel's under ping-pong) is filtered through the channel's tone
  filter, from the state that filter was left in by the previous sample, and scaled by the
  feedback coefficient.
\<close>

definition spec_feedbackSample ::
  "('s, 'f) juce_ops \<Rightarrow> real list \<Rightarrow> nat \<Rightarrow> ('s, 'f) DelayModule \<Rightarrow> nat \<Rightarrow> real" where
  "spec_feedbackSample J delayed channels st ch =
     fst (processSample J ch
            (delayed ! (if isPingPong st \<and> channels = 2 then 1 - ch else ch))
            (toneLPF st ! ch)) * fb st"

section \<open>Processor (PluginProcessor.h, PluginProcessor.cpp)\<close>

text \<open>
  The raw values of the host-visible parameters (\<open>apvts\<close>) that the modelled functions
  read with \<open>getRawParam\<close>.  The identifier strings are declared in \<open>Params.h\<close>, which
  is not among the sources; the performance parameters are therefore fields, and
  \<open>moduleParams p\<close> stands for the raw value of the parameter whose identifier is
  \<open>SceneParam::info[p].id\<close>.
\<close>

record Apvts =
  sceneA :: real
  sceneB :: real
  morphParam :: real
  macro1 :: real
  macro2 :: real
  macro3 :: real
  macro4 :: real
  moduleParams :: "nat \<Rightarrow> real"

text \<open>The members of \<open>MacroMorphFXProcessor\<close> that the modelled functions use.\<close>

record Processor =
  apvts :: Apvts
  scenes :: "SceneParams list"
  macroEngine :: MacroEngine

text \<open>
  \<open>std::clamp (static_cast<int> (getRawParam (apvts, sceneA)), 0, kNumScenes - 1)\<close>, the
  expression by which \<open>processBlock\<close> and \<open>storeCurrentToScene\<close> obtain a scene index
  from a raw parameter value.
\<close>

definition sceneIdx :: "real \<Rightarrow> int" where
  "sceneIdx raw = std_clamp (to_int raw) 0 (int kNumScenes - 1)"

text \<open>
  Steps 1 and 2 of the scene pipeline of \<open>processBlock\<close>, repeated verbatim in
  \<open>storeCurrentToScene\<close>: morph between the scenes selected by A and B, then apply the
  macro offsets.  Both compute in \<open>float\<close>, hence with \<open>round32\<close>.
\<close>

definition morphedWithMacros :: "Processor \<Rightarrow> SceneParams" where
  "morphedWithMacros st =
     (let sceneAIdx = sceneIdx (sceneA (apvts st));
          sceneBIdx = sceneIdx (sceneB (apvts st));
          morphVal = morphParam (apvts st);
          morphed = morph32 (scenes st ! nat sceneAIdx) (scenes st ! nat sceneBIdx) morphVal;
          macroValues = [macro1 (apvts st), macro2 (apvts st), macro3 (apvts st), macro4 (apvts st)]
      in MacroEngine_apply round32 (macroEngine st) morphed macroValues)"

text \<open>\<open>MacroMorphFXProcessor::setSceneParam (sceneIndex, paramIndex, value)\<close>.\<close>

definition setSceneParam :: "int \<Rightarrow> int \<Rightarrow> real \<Rightarrow> Processor \<Rightarrow> Processor" where
  "setSceneParam sceneIndex paramIndex v st =
     (if sceneIndex \<ge> 0 \<and> sceneIndex < int kNumScenes \<and> paramIndex \<ge> 0 \<and> paramIndex < int kCount
      then st\<lparr>scenes := (scenes st)[nat sceneIndex :=
             (scenes st ! nat sceneIndex)\<lparr>vals :=
                (vals (scenes st ! nat sceneIndex))[nat paramIndex := v]\<rparr>]\<rparr>
      else st)"

text \<open>
  \<open>MacroMorphFXProcessor::storeScene (sceneIndex)\<close>: the loop over \<open>p\<close> copies the raw
  module parameter values into the slot.
\<close>

definition storeScene :: "int \<Rightarrow> Processor \<Rightarrow> Processor" where
  "storeScene sceneIndex st =
     (if sceneIndex < 0 \<or> sceneIndex \<ge> int kNumScenes then st
      else st\<lparr>scenes := (scenes st)[nat sceneIndex :=
             foldl (\<lambda>scene p. scene\<lparr>vals := (vals scene)[p := moduleParams (apvts st) p]\<rparr>)
               (scenes st ! nat sceneIndex) [0..<kCount]]\<rparr>)"

text \<open>\<open>MacroMorphFXProcessor::storeCurrentToScene (sceneIndex)\<close>.\<close>

definition storeCurrentToScene :: "int \<Rightarrow> Processor \<Rightarrow> Processor" where
  "storeCurrentToScene sceneIndex st =
     (if sceneIndex < 0 \<or> sceneIndex \<ge> int kNumScenes then st
      else st\<lparr>scenes := (scenes st)[nat sceneIndex := morphedWithMacros st]\<rparr>)"

text \<open>
  The document read by \<open>setStateInformation\<close>.  A \<open>Scene\<close> element carries the
  attribute \<open>index\<close> and one attribute per parameter identifier; \<open>sx_attrs p\<close> is the
  value of the attribute named \<open>SceneParam::info[p].id\<close> when the element has it.  A
  \<open>Target\<close> element carries \<open>param\<close>, \<open>amount\<close> and \<open>curve\<close>; \<open>tx_param\<close> is
  the position of the first table entry whose identifier equals the attribute \<open>param\<close>,
  if there is one (the search loop of the function compares identifier strings, which come
  from \<open>Params.h\<close>).
\<close>

record SceneXml =
  sx_index :: "int option"
  sx_attrs :: "nat \<Rightarrow> real option"

record TargetXml =
  tx_param :: "nat option"
  tx_amount :: "real option"
  tx_curve :: "int option"

record MacroXml =
  mx_index :: "int option"
  mx_targets :: "TargetXml list"

datatype StateXml =
    Preset "Apvts option" "SceneXml list option" "MacroXml list option"
  | Legacy Apvts
  | OtherTag

text \<open>\<open>getIntAttribute (name, default)\<close> and \<open>getDoubleAttribute (name)\<close>.\<close>

definition getIntAttribute :: "int option \<Rightarrow> int \<Rightarrow> int" where
  "getIntAttribute a d = (case a of None \<Rightarrow> d | Some v \<Rightarrow> v)"

definition getDoubleAttribute :: "real option \<Rightarrow> real" where
  "getDoubleAttribute a = (case a of None \<Rightarrow> 0 | Some v \<Rightarrow> v)"

text \<open>\<open>static_cast<int> (MacroCurve)\<close> and \<open>static_cast<MacroCurve> (int)\<close>.\<close>

definition curve_to_int :: "MacroCurve \<Rightarrow> int" where
  "curve_to_int c =
     (case c of linear \<Rightarrow> 0 | exponential \<Rightarrow> 1 | logarithmic \<Rightarrow> 2 | sCurve \<Rightarrow> 3 | curveCount \<Rightarrow> 4)"

definition curve_of_int :: "int \<Rightarrow> MacroCurve" where
  "curve_of_int i =
     (if i = 0 then linear else if i = 1 then exponential else if i = 2 then logarithmic
      else if i = 3 then sCurve else curveCount)"

text \<open>
  Restoring one \<open>Scene\<close> element: the body of the loop over the scene elements.  The
  attribute is read as a \<open>double\<close> and converted to \<open>float\<close>, which rounds it to
  binary32.
\<close>

definition restore_scene :: "SceneParams list \<Rightarrow> SceneXml \<Rightarrow> SceneParams list" where
  "restore_scene bank sceneXml =
     (let idx = getIntAttribute (sx_index sceneXml) (- 1)
      in if idx < 0 \<or> idx \<ge> int kNumScenes then bank
         else foldl (\<lambda>bank p.
                 (case sx_attrs sceneXml p of
                    None \<Rightarrow> bank
                  | Some v \<Rightarrow>
                      bank[nat idx :=
                        (bank ! nat idx)\<lparr>vals := (vals (bank ! nat idx))[p := round32 v]\<rparr>]))
               bank [0..<kCount])"

text \<open>
  Reading one \<open>Target\<close> element: the body of the loop over a macro's targets.  The
  amount is read as a \<open>double\<close> and converted to \<open>float\<close>.
\<close>

definition restore_target :: "MacroTarget list \<Rightarrow> TargetXml \<Rightarrow> MacroTarget list" where
  "restore_target targets targetXml =
     (let amt = round32 (getDoubleAttribute (tx_amount targetXml));
          curveInt = getIntAttribute (tx_curve targetXml) 0;
          crv = curve_of_int (std_clamp curveInt 0 (curve_to_int curveCount - 1))
      in case tx_param targetXml of
           None \<Rightarrow> targets
         | Some p \<Rightarrow> targets @ [\<lparr>sceneParamIndex = int p, amount = amt, curve = crv\<rparr>])"

text \<open>Restoring one \<open>Macro\<close> element.\<close>

definition restore_macro :: "MacroEngine \<Rightarrow> MacroXml \<Rightarrow> MacroEngine" where
  "restore_macro eng macroXml =
     (let mIdx = getIntAttribute (mx_index macroXml) (- 1)
      in if mIdx < 0 \<or> mIdx \<ge> int kNumMacros then eng
         else setMappings mIdx (foldl restore_target [] (mx_targets macroXml)) eng)"

text \<open>
  \<open>MacroMorphFXProcessor::setStateInformation\<close>.  The argument is the parsed document,
  \<open>None\<close> when the data does not parse.
\<close>

definition setStateInformation :: "StateXml option \<Rightarrow> Processor \<Rightarrow> Processor" where
  "setStateInformation xml st =
     (case xml of
        None \<Rightarrow> st
      | Some (Preset apvtsXml scenesXml macrosXml) \<Rightarrow>
          (let st1 = (case apvtsXml of None \<Rightarrow> st | Some a \<Rightarrow> st\<lparr>apvts := a\<rparr>);
               st2 = (case scenesXml of
                        None \<Rightarrow> st1
                      | Some elems \<Rightarrow> st1\<lparr>scenes := foldl restore_scene (scenes st1) elems\<rparr>)
           in case macrosXml of
                None \<Rightarrow> st2
              | Some elems \<Rightarrow>
                  st2\<lparr>macroEngine := foldl restore_macro (clearAllMappings (macroEngine st2)) elems\<rparr>)
      | Some (Legacy a) \<Rightarrow> st\<lparr>apvts := a\<rparr>
      | Some OtherTag \<Rightarrow> st)"

section \<open>Range predicates\<close>

text \<open>
  A value lies in the range of scene parameter \<open>i\<close>; a scene has fourteen values, each
  in its range; the bank has eight scenes, each in range.
\<close>

definition fieldInRange :: "nat \<Rightarrow> real \<Rightarrow> bool" where
  "fieldInRange i v = (minVal (info ! i) \<le> v \<and> v \<le> maxVal (info ! i))"

definition sceneInRange :: "SceneParams \<Rightarrow> bool" where
  "sceneInRange s =
     (length (vals s) = kCount \<and> list_all (\<lambda>i. fieldInRange i (vals s ! i)) [0..<kCount])"

definition bankInRange :: "Processor \<Rightarrow> bool" where
  "bankInRange st = (length (scenes st) = kNumScenes \<and> list_all sceneInRange (scenes st))"

text \<open>Every scene value that a document would restore lies in its parameter's range.\<close>

definition sceneXmlInRange :: "SceneXml \<Rightarrow> bool" where
  "sceneXmlInRange sceneXml =
     list_all (\<lambda>p. case sx_attrs sceneXml p of None \<Rightarrow> True | Some v \<Rightarrow> fieldInRange p v)
       [0..<kCount]"

definition stateXmlInRange :: "StateXml option \<Rightarrow> bool" where
  "stateXmlInRange xml =
     (case xml of
        Some (Preset apvtsXml (Some elems) macrosXml) \<Rightarrow> list_all sceneXmlInRange elems
      | _ \<Rightarrow> True)"

text \<open>
  Scene parameter \<open>i\<close> is the target of some target of a macro that is not passed
  over.
\<close>

definition written_by_macros :: "MacroEngine \<Rightarrow> real list \<Rightarrow> nat \<Rightarrow> bool" where
  "written_by_macros eng macroValues i =
     list_ex (\<lambda>m. \<not> macroValues ! m < 1 / 1000 \<and>
                  list_ex (\<lambda>t. sceneParamIndex t = int i) (mappings eng ! m))
       [0..<kNumMacros]"

section \<open>The macro engine in the words of the specification\<close>

text \<open>
  The targets that take part in a call: those of the macros whose value is not below
  0.001, macro after macro and in list order, each with the value of its macro.
\<close>

definition active_targets :: "MacroEngine \<Rightarrow> real list \<Rightarrow> (real \<times> MacroTarget) list" where
  "active_targets eng macroValues =
     concat (map (\<lambda>m. if macroValues ! m < 1 / 1000 then []
                       else map (\<lambda>t. (macroValues ! m, t)) (mappings eng ! m))
               [0..<kNumMacros])"

text \<open>
  The effect of one target with macro value \<open>v\<close> on the running scene: a target on a
  continuous field replaces the current value \<open>c\<close> of the field by
  \<open>clamp (c + curve (v) \<sqdot> weight \<sqdot> (max - min), min, max)\<close>, the operations being those
  of \<open>float\<close>; any other target leaves the scene as it is.
\<close>

definition claimed_update ::
  "(real \<Rightarrow> real) \<Rightarrow> SceneParams \<Rightarrow> real \<times> MacroTarget \<Rightarrow> SceneParams" where
  "claimed_update rnd params vt =
     (let v = fst vt; target = snd vt; i = nat (sceneParamIndex target);
          lo = minVal (info ! i); hi = maxVal (info ! i)
      in if 0 \<le> sceneParamIndex target \<and> sceneParamIndex target < int kCount \<and>
            \<not> isDiscrete (info ! i)
         then params\<lparr>vals := (vals params)
                [i := std_clamp
                        (rnd (vals params ! i +
                           rnd (rnd (applyMacroCurve rnd v (curve target) * amount target) *
                                rnd (hi - lo))))
                        lo hi]\<rparr>
         else params)"

section \<open>The feedback sample that the delay writes\<close>

text \<open>
  The feedback sample as \<open>channel_step\<close> computes it: the channel's filter first
  processes the channel's own delayed sample; under ping-pong with two channels it then
  processes the opposite channel's delayed sample, from the state the first call left, and
  this second output is the one that is scaled and written.
\<close>

definition code_feedbackSample ::
  "('s, 'f) juce_ops \<Rightarrow> real list \<Rightarrow> nat \<Rightarrow> ('s, 'f) DelayModule \<Rightarrow> nat \<Rightarrow> real" where
  "code_feedbackSample J delayed channels st ch =
     (if isPingPong st \<and> channels = 2
      then fst (processSample J ch (delayed ! (1 - ch))
                  (snd (processSample J ch (delayed ! ch) (toneLPF st ! ch))))
      else fst (processSample J ch (delayed ! ch) (toneLPF st ! ch))) * fb st"

section \<open>Concrete data\<close>

text \<open>
  An instance of the library operations, for running the delay on concrete data.  The
  smoothed value has reached its target and is represented by it.  The filter is a two-pole
  low-pass in trapezoidal state-variable form with fixed coefficients \<open>g\<close> and \<open>R2\<close>;
  its state is the pair of integrator states, and one call computes the high-pass,
  band-pass and low-pass outputs, updates both states and returns the low-pass output.
\<close>

definition svf_lowpass :: "real \<Rightarrow> real \<Rightarrow> real \<Rightarrow> real \<times> real \<Rightarrow> real \<times> (real \<times> real)" where
  "svf_lowpass g R2 x s =
     (let h = 1 / (1 + R2 * g + g * g);
          ls1 = fst s; ls2 = snd s;
          yHP = h * (x - ls1 * (g + R2) - ls2);
          yBP = yHP * g + ls1;
          ls1' = yHP * g + yBP;
          yLP = yBP * g + ls2;
          ls2' = yBP * g + yLP
      in (yLP, (ls1', ls2')))"

definition exampleOps :: "(real, real \<times> real) juce_ops" where
  "exampleOps =
     \<lparr>smoothed_reset = (\<lambda>sr t s. s),
      setCurrentAndTargetValue = (\<lambda>v s. v),
      setTargetValue = (\<lambda>v s. v),
      getNextValue = (\<lambda>s. (s, s)),
      filter_prepare = (\<lambda>sr f. f),
      setType_lowpass = (\<lambda>f. f),
      setCutoffFrequency = (\<lambda>c f. f),
      setResonance = (\<lambda>r f. f),
      processSample = (\<lambda>ch. svf_lowpass 1 (1000 / 707))\<rparr>"

text \<open>
  A delay prepared at 48 kHz for two channels, set to a quarter note at 120 BPM (24000
  samples), feedback 0.5, width 1, ping-pong on.  A unit impulse was written to the left
  delay line at position 1, followed by silence; the write positions have reached 24001,
  so the impulse is the left channel's delayed sample now.  The filters are at rest.
\<close>

definition pingPongState :: "(real, real \<times> real) DelayModule" where
  "pingPongState =
     \<lparr>sampleRate = 48000, numChannels = 2, bufSize = 96000,
      delayLine = [(replicate 96000 0)[1 := 1], replicate 96000 0],
      writePos = [24001, 24001],
      fb = 1 / 2, width = 1, isPingPong = True,
      toneLPF = [(0, 0), (0, 0)],
      smoothDelay = 24000\<rparr>"

text \<open>
  Two scenes that differ from the default in the resonance only: 1 in the first,
  \<open>2\<^sup>-\<^sup>3\<^sup>0\<close> in the second.  Both values are binary32 numbers in the range of
  the resonance.
\<close>

definition sceneResoOne :: SceneParams where
  "sceneResoOne = createDefault\<lparr>vals := (vals createDefault)[filtReso := 1]\<rparr>"

definition sceneResoTiny :: SceneParams where
  "sceneResoTiny = createDefault\<lparr>vals := (vals createDefault)[filtReso := 1 / 2 ^ 30]\<rparr>"

text \<open>
  Scenes and processor states used to run the functions on concrete data: a second scene,
  and a processor whose eight slots hold the default scene.
\<close>

definition defaultApvts :: Apvts where
  "defaultApvts = \<lparr>sceneA = 0, sceneB = 1, morphParam = 0, macro1 = 0, macro2 = 0, macro3 = 0,
     macro4 = 0, moduleParams = (\<lambda>p. defaultVal (info ! p))\<rparr>"

definition defaultProcessor :: Processor where
  "defaultProcessor = \<lparr>apvts = defaultApvts, scenes = replicate kNumScenes createDefault,
     macroEngine = initDefaultMappings\<rparr>"

definition sceneEcho :: SceneParams where
  "sceneEcho =
     createDefault\<lparr>vals := (vals createDefault)
       [filtMode := 2, filtCutoff := 500, delaySync := 4, delayWidth := 1, delayPingP := 1]\<rparr>"

text \<open>
  A processor whose slot 0 holds the default scene with the delay feedback \<open>0.35f\<close>
  (11744051/33554432) and whose slot 1 holds it with the delay feedback \<open>0.95f\<close>
  (15938355/16777216, the maximum of the field); the other slots hold the default scene.
  Scene A is slot 0, scene B is slot 1, the morph factor is 1 and the macros are at 0.
\<close>

definition sceneFbLow :: SceneParams where
  "sceneFbLow = createDefault\<lparr>vals := (vals createDefault)[delayFb := 11744051 / 33554432]\<rparr>"

definition sceneFbHigh :: SceneParams where
  "sceneFbHigh = createDefault\<lparr>vals := (vals createDefault)[delayFb := 15938355 / 16777216]\<rparr>"

definition feedbackProcessor :: Processor where
  "feedbackProcessor =
     \<lparr>apvts = defaultApvts\<lparr>morphParam := 1\<rparr>,
      scenes = [sceneFbLow, sceneFbHigh] @ replicate 6 createDefault,
      macroEngine = initDefaultMappings\<rparr>"

text \<open>
  Macro engines used to run \<open>MacroEngine::apply\<close>: one whose first macro has the single
  target of the specification's scenario (cutoff, amount 0.5, exponential curve), and one
  whose first macro raises the cutoff by the full range and whose second macro lowers it by
  half the range, and one whose first macro has a target with the index 14, which is no
  scene parameter, before a target on the cutoff.
\<close>

definition scenarioEngine :: MacroEngine where
  "scenarioEngine = \<lparr>mappings =
     [[\<lparr>sceneParamIndex = int filtCutoff, amount = 1 / 2, curve = exponential\<rparr>], [], [], []]\<rparr>"

definition upDownEngine :: MacroEngine where
  "upDownEngine = \<lparr>mappings =
     [[\<lparr>sceneParamIndex = int filtCutoff, amount = 1, curve = linear\<rparr>],
      [\<lparr>sceneParamIndex = int filtCutoff, amount = - (1 / 2), curve = linear\<rparr>], [], []]\<rparr>"


section \<open>Properties of the scene interpolation\<close>

lemma length_info: "length info = 14"
  by (simp add: info_def)

lemma all_below_14: "(\<forall>i<14. P (i::nat)) \<longleftrightarrow> list_all P [0..<14]"
  by (auto simp: list_all_iff simp del: upt_Suc)

lemma discrete_indices: "\<forall>i<14. isDiscrete (info ! i) \<longleftrightarrow> i = 0 \<or> i = 5 \<or> i = 9"
  unfolding all_below_14 by code_simp

lemma morph_with_nth:
  "i < 14 \<Longrightarrow> vals (morph_with rnd a b t) ! i = morph_value rnd a b t i"
  by (simp add: morph_with_def kCount_def del: upt_Suc)

text \<open>
  C2.  For every pair of scenes, every morph factor and each of the three discrete
  fields (filter mode, delay sync index, ping-pong flag), the morphed scene holds exactly
  the value of scene \<open>a\<close> when \<open>t < 0.5\<close> and exactly the value of scene \<open>b\<close>
  otherwise; at \<open>t = 0.5\<close> it is the value of \<open>b\<close>.  No arithmetic is involved, so
  this holds whatever the rounding of the arithmetic is.
\<close>

theorem morph_discrete_threshold:
  "i \<in> {filtMode, delaySync, delayPingP} \<Longrightarrow>
     isDiscrete (info ! i) \<and>
     vals (morph_with rnd a b t) ! i = (if t < 1 / 2 then vals a ! i else vals b ! i) \<and>
     vals (morph_with rnd a b (1 / 2)) ! i = vals b ! i"
proof -
  assume i: "i \<in> {filtMode, delaySync, delayPingP}"
  then have lt: "i < 14" and d: "isDiscrete (info ! i)"
    by (auto simp: filtMode_def delaySync_def delayPingP_def info_def)
  show ?thesis
    using d by (simp add: morph_with_nth [OF lt] morph_value_def)
qed


lemma vals_createDefault:
  "vals createDefault =
     [0, 8000, 13421773 / 67108864, 0, 5 / 10, 2, 25 / 100, 5 / 10, 11744051 / 16777216, 0,
      11744051 / 33554432, 5 / 10, 10, 13421773 / 16777216]"
  by (simp add: createDefault_def kCount_def info_def
      upt_rec [of _ "numeral _"] upt_rec [of _ "Suc _"])

lemma vals_sceneEcho:
  "vals sceneEcho =
     [2, 500, 13421773 / 67108864, 0, 5 / 10, 4, 25 / 100, 5 / 10, 1, 1,
      11744051 / 33554432, 5 / 10, 10, 13421773 / 16777216]"
  by (simp add: sceneEcho_def vals_createDefault filtMode_def filtCutoff_def delaySync_def
      delayWidth_def delayPingP_def)

theorem morph_discrete_threshold_witness:
  "delaySync \<in> {filtMode, delaySync, delayPingP} \<and>
   vals (morph_with (\<lambda>x. x) createDefault sceneEcho (1 / 4)) ! delaySync = 2 \<and>
   vals (morph_with (\<lambda>x. x) createDefault sceneEcho (1 / 2)) ! delaySync = 4"
  using morph_discrete_threshold [of delaySync "\<lambda>x. x" createDefault sceneEcho "1 / 4"]
  by (simp add: vals_createDefault vals_sceneEcho delaySync_def)

lemma info_cutoff:
  "info ! filtCutoff = \<lparr>minVal = 20, maxVal = 20000, defaultVal = 8000, isDiscrete = False\<rparr>"
  by (simp add: info_def filtCutoff_def)

lemma filtCutoff_bound: "int filtCutoff < 14"
  by (simp add: filtCutoff_def)

lemma std_clamp_mono: "lo \<le> hi \<Longrightarrow> x \<le> y \<Longrightarrow> std_clamp x lo hi \<le> std_clamp y lo hi"
  by (auto simp: std_clamp_def)

lemma std_clamp_bounds: "lo \<le> hi \<Longrightarrow> lo \<le> std_clamp x lo hi \<and> std_clamp x lo hi \<le> hi"
  by (auto simp: std_clamp_def)

section \<open>Properties of binary32 rounding and of the interpolation end points\<close>

lemma find_upto_first:
  assumes "l \<le> e" and "e \<le> h" and "P e" and "\<And>e'. l \<le> e' \<Longrightarrow> e' < e \<Longrightarrow> \<not> P e'"
  shows "find P [l..h] = Some e"
proof -
  let ?i = "nat (e - l)"
  have len: "?i < length [l..h]"
    using assms(1,2) by simp
  have nth: "[l..h] ! ?i = e"
    using assms(1,2) by simp
  have first: "\<not> P ([l..h] ! j)" if "j < ?i" for j
  proof -
    have "[l..h] ! j = l + int j"
      using that assms(2) by simp
    moreover have "l + int j < e"
      using that by linarith
    ultimately show ?thesis
      using assms(4) [of "l + int j"] by simp
  qed
  have "\<exists>i<length [l..h]. P ([l..h] ! i) \<and> e = [l..h] ! i \<and> (\<forall>j<i. \<not> P ([l..h] ! j))"
  proof (intro exI [of _ ?i] conjI allI impI)
    show "?i < length [l..h]" by (rule len)
    show "P ([l..h] ! ?i)" unfolding nth by (rule assms(3))
    show "e = [l..h] ! ?i" unfolding nth ..
    show "\<not> P ([l..h] ! j)" if "j < ?i" for j by (rule first [OF that])
  qed
  then show ?thesis
    unfolding find_Some_iff .
qed

lemma ulp_exponentI:
  assumes lo: "- 149 \<le> e" and hi: "e \<le> 104"
    and above: "\<bar>x\<bar> < 2 powi (e + 24)"
    and below: "e \<noteq> - 149 \<Longrightarrow> 2 powi (e + 23) \<le> \<bar>x\<bar>"
  shows "ulp_exponent x = e"
proof -
  have "find (\<lambda>e. \<bar>x\<bar> < 2 powi (e + 24)) [- 149..104] = Some e"
  proof (rule find_upto_first [where P = "\<lambda>e. \<bar>x\<bar> < 2 powi (e + 24)", OF lo hi above])
    fix e' :: int
    assume e': "- 149 \<le> e'" "e' < e"
    then have ne: "e \<noteq> - 149" by simp
    have "e' + 24 \<le> e + 23"
      using e' by simp
    then have "(2::real) powi (e' + 24) \<le> 2 powi (e + 23)"
      by (intro power_int_increasing) simp_all
    with below [OF ne] show "\<not> \<bar>x\<bar> < 2 powi (e' + 24)"
      by linarith
  qed
  then show ?thesis
    unfolding ulp_exponent_def by simp
qed

lemma round32_0: "round32 0 = 0"
  by (simp add: round32_def round_even_def)

lemma ulp_exponent_near_minus_one: "ulp_exponent (1 / 2 ^ 30 - 1) = - 24"
  by (rule ulp_exponentI) (simp_all add: power_int_minus)

lemma round32_near_minus_one: "round32 (1 / 2 ^ 30 - 1) = - 1"
  unfolding round32_def ulp_exponent_near_minus_one
  by (simp add: round_even_def Let_def power_int_minus)

lemma round32_tenth: "round32 (1 / 10) = 13421773 / 134217728"
proof -
  have "ulp_exponent (1 / 10) = - 27"
    by (rule ulp_exponentI) (simp_all add: power_int_minus)
  then show ?thesis
    unfolding round32_def by (simp add: round_even_def Let_def power_int_minus)
qed

lemma round32_1: "round32 1 = 1"
proof -
  have "ulp_exponent 1 = - 23"
    by (rule ulp_exponentI) (simp_all add: power_int_minus)
  then show ?thesis
    unfolding round32_def by (simp add: round_even_def Let_def power_int_minus)
qed

lemma round32_minus_1: "round32 (- 1) = - 1"
proof -
  have "ulp_exponent (- 1) = - 23"
    by (rule ulp_exponentI) (simp_all add: power_int_minus)
  then show ?thesis
    unfolding round32_def by (simp add: round_even_def Let_def power_int_minus)
qed

lemma round32_tiny: "round32 (1 / 2 ^ 30) = 1 / 2 ^ 30"
proof -
  have "ulp_exponent (1 / 2 ^ 30) = - 53"
    by (rule ulp_exponentI) (simp_all add: power_int_minus)
  then show ?thesis
    unfolding round32_def by (simp add: round_even_def Let_def power_int_minus)
qed

lemma round32_8000: "round32 8000 = 8000"
proof -
  have "ulp_exponent 8000 = - 11"
    by (rule ulp_exponentI) (simp_all add: power_int_minus)
  then show ?thesis
    unfolding round32_def by (simp add: round_even_def Let_def power_int_minus)
qed

lemma round32_500: "round32 500 = 500"
proof -
  have "ulp_exponent 500 = - 15"
    by (rule ulp_exponentI) (simp_all add: power_int_minus)
  then show ?thesis
    unfolding round32_def by (simp add: round_even_def Let_def power_int_minus)
qed

lemma round32_minus_7500: "round32 (- 7500) = - 7500"
proof -
  have "ulp_exponent (- 7500) = - 11"
    by (rule ulp_exponentI) (simp_all add: power_int_minus)
  then show ?thesis
    unfolding round32_def by (simp add: round_even_def Let_def power_int_minus)
qed

lemma filtReso_facts:
  "filtReso < 14" "\<not> isDiscrete (info ! filtReso)"
  "minVal (info ! filtReso) = 0" "maxVal (info ! filtReso) = 1"
  by (simp_all add: filtReso_def info_def)

lemma reso_scenes:
  "vals sceneResoOne ! filtReso = 1" "vals sceneResoTiny ! filtReso = 1 / 2 ^ 30"
  by (simp_all add: sceneResoOne_def sceneResoTiny_def vals_createDefault filtReso_def)

text \<open>
  C3, as claimed: for every pair of scenes and every continuous field the interpolation
  returns the value of \<open>a\<close> at \<open>t = 0\<close> and the value of \<open>b\<close> at \<open>t = 1\<close>,
  bit for bit.  In binary32 the second half fails: with the resonance 1 in \<open>a\<close> and
  \<open>2\<^sup>-\<^sup>3\<^sup>0\<close> in \<open>b\<close> (both binary32 numbers in the range of the field), the
  difference \<open>b - a\<close> rounds to \<open>-1\<close> and the result at \<open>t = 1\<close> is 0, not
  \<open>2\<^sup>-\<^sup>3\<^sup>0\<close>.
\<close>

theorem morph32_end_not_exact:
  "round32 (vals sceneResoOne ! filtReso) = vals sceneResoOne ! filtReso \<and>
   round32 (vals sceneResoTiny ! filtReso) = vals sceneResoTiny ! filtReso \<and>
   fieldInRange filtReso (vals sceneResoOne ! filtReso) \<and>
   fieldInRange filtReso (vals sceneResoTiny ! filtReso) \<and>
   \<not> isDiscrete (info ! filtReso) \<and>
   vals sceneResoTiny ! filtReso = 1 / 2 ^ 30 \<and>
   vals (morph32 sceneResoOne sceneResoTiny 1) ! filtReso = 0"
proof -
  have "morph_value round32 sceneResoOne sceneResoTiny 1 filtReso
      = round32 (1 + round32 (1 * round32 (1 / 2 ^ 30 - 1)))"
    by (simp only: morph_value_def filtReso_facts reso_scenes if_False)
  also have "\<dots> = round32 (1 + round32 (- 1))"
    by (simp only: round32_near_minus_one mult_1)
  also have "\<dots> = 0"
    by (simp add: round32_minus_1 round32_0)
  finally have "vals (morph32 sceneResoOne sceneResoTiny 1) ! filtReso = 0"
    by (simp add: morph32_def morph_with_nth filtReso_facts)
  moreover have "round32 (vals sceneResoOne ! filtReso) = vals sceneResoOne ! filtReso"
    by (simp only: reso_scenes round32_1)
  moreover have "round32 (vals sceneResoTiny ! filtReso) = vals sceneResoTiny ! filtReso"
    by (simp only: reso_scenes round32_tiny)
  moreover have "fieldInRange filtReso (vals sceneResoOne ! filtReso)"
    "fieldInRange filtReso (vals sceneResoTiny ! filtReso)"
    by (simp_all add: fieldInRange_def filtReso_facts reso_scenes)
  ultimately show ?thesis
    using filtReso_facts(2) reso_scenes(2) by (intro conjI)
qed

text \<open>
  C3, amended.  For every pair of scenes and every continuous field: in exact arithmetic
  the interpolation \<open>a + t \<sqdot> (b - a)\<close> returns the value of \<open>a\<close> at \<open>t = 0\<close> and
  the value of \<open>b\<close> at \<open>t = 1\<close>.  In binary32, for values of \<open>a\<close> and \<open>b\<close>
  that are binary32 numbers within the range of the field, it returns the value of
  \<open>a\<close> at \<open>t = 0\<close>; at \<open>t = 1\<close> it returns \<open>a\<close> plus the rounded difference,
  rounded, which is the value of \<open>b\<close> whenever the difference \<open>b - a\<close> is itself a
  binary32 number.  (Equality is that of numbers; the sign of a zero is not modelled.)
\<close>

theorem morph_endpoints:
  "i < 14 \<and> \<not> isDiscrete (info ! i) \<longrightarrow>
     vals (morph a b 0) ! i = vals a ! i \<and>
     vals (morph a b 1) ! i = vals b ! i \<and>
     (round32 (vals a ! i) = vals a ! i \<and> round32 (vals b ! i) = vals b ! i \<and>
      fieldInRange i (vals a ! i) \<and> fieldInRange i (vals b ! i) \<longrightarrow>
        vals (morph32 a b 0) ! i = vals a ! i \<and>
        vals (morph32 a b 1) ! i
          = round32 (vals a ! i + round32 (round32 (vals b ! i - vals a ! i))) \<and>
        (round32 (vals b ! i - vals a ! i) = vals b ! i - vals a ! i \<longrightarrow>
           vals (morph32 a b 1) ! i = vals b ! i))"
  by (simp add: morph_def morph32_def morph_with_nth morph_value_def round32_0)

theorem morph_endpoints_witness:
  "filtCutoff < 14 \<and> \<not> isDiscrete (info ! filtCutoff) \<and>
   round32 (vals createDefault ! filtCutoff) = vals createDefault ! filtCutoff \<and>
   round32 (vals sceneEcho ! filtCutoff) = vals sceneEcho ! filtCutoff \<and>
   fieldInRange filtCutoff (vals createDefault ! filtCutoff) \<and>
   fieldInRange filtCutoff (vals sceneEcho ! filtCutoff) \<and>
   round32 (vals sceneEcho ! filtCutoff - vals createDefault ! filtCutoff)
     = vals sceneEcho ! filtCutoff - vals createDefault ! filtCutoff \<and>
   vals (morph createDefault sceneEcho 0) ! filtCutoff = 8000 \<and>
   vals (morph createDefault sceneEcho 1) ! filtCutoff = 500 \<and>
   vals (morph32 createDefault sceneEcho 0) ! filtCutoff = 8000 \<and>
   vals (morph32 createDefault sceneEcho 1) ! filtCutoff = 500"
proof -
  have v: "vals createDefault ! filtCutoff = 8000" "vals sceneEcho ! filtCutoff = 500"
    by (simp_all add: vals_createDefault vals_sceneEcho filtCutoff_def)
  have c: "filtCutoff < 14" "\<not> isDiscrete (info ! filtCutoff)"
    by (simp_all add: filtCutoff_def info_def)
  show ?thesis
    using morph_endpoints [of filtCutoff createDefault sceneEcho]
    by (simp add: v c round32_8000 round32_500 round32_minus_7500 fieldInRange_def info_cutoff)
qed

section \<open>Order and fixed points of binary32 rounding\<close>

lemma find_upto_Some:
  assumes "find P [l..h] = Some e"
  shows "l \<le> e \<and> e \<le> h \<and> P e \<and> (\<forall>e'. l \<le> e' \<and> e' < e \<longrightarrow> \<not> P e')"
proof -
  from assms obtain i where i: "i < length [l..h]" and Pi: "P ([l..h] ! i)"
    and e: "e = [l..h] ! i" and first: "\<forall>j<i. \<not> P ([l..h] ! j)"
    unfolding find_Some_iff by blast
  have ih: "l + int i \<le> h" using i by simp
  then have ei: "e = l + int i" using e by simp
  have "\<not> P e'" if "l \<le> e'" "e' < e" for e'
  proof -
    let ?j = "nat (e' - l)"
    have j: "?j < i" using that ei by linarith
    have "l + int ?j \<le> h" using that ih j by linarith
    then have "[l..h] ! ?j = l + int ?j" by simp
    then have "[l..h] ! ?j = e'" using that by simp
    with first j show ?thesis by metis
  qed
  then show ?thesis using ei ih Pi e by auto
qed

lemma find_upto_None:
  assumes "find P [l..h] = None" and "l \<le> e" and "e \<le> h"
  shows "\<not> P e"
  using assms unfolding find_None_iff set_upto by auto

lemma ulp_exponent_range: "- 149 \<le> ulp_exponent x \<and> ulp_exponent x \<le> 104"
proof (cases "find (\<lambda>e. \<bar>x\<bar> < 2 powi (e + 24)) [- 149..104]")
  case None
  show ?thesis unfolding ulp_exponent_def None by simp
next
  case (Some e)
  from find_upto_Some [OF Some] show ?thesis
    unfolding ulp_exponent_def Some by simp
qed

lemma ulp_exponent_lower:
  assumes "ulp_exponent x \<noteq> - 149"
  shows "2 powi (ulp_exponent x + 23) \<le> \<bar>x\<bar>"
proof (cases "find (\<lambda>e. \<bar>x\<bar> < 2 powi (e + 24)) [- 149..104]")
  case None
  have e: "ulp_exponent x = 104" unfolding ulp_exponent_def None by simp
  have "\<not> \<bar>x\<bar> < 2 powi (103 + 24)"
    by (rule find_upto_None [OF None]) simp_all
  then show ?thesis unfolding e by simp
next
  case (Some e)
  have e: "ulp_exponent x = e" unfolding ulp_exponent_def Some by simp
  from find_upto_Some [OF Some] have "- 149 \<le> e"
    and first: "\<forall>e'. - 149 \<le> e' \<and> e' < e \<longrightarrow> \<not> \<bar>x\<bar> < 2 powi (e' + 24)"
    by blast+
  with assms e have "\<not> \<bar>x\<bar> < 2 powi ((e - 1) + 24)"
    by (intro first [rule_format]) simp
  then show ?thesis unfolding e by (simp add: algebra_simps)
qed

lemma ulp_exponent_upper:
  assumes "\<bar>x\<bar> < 2 powi 128"
  shows "\<bar>x\<bar> < 2 powi (ulp_exponent x + 24)"
proof (cases "find (\<lambda>e. \<bar>x\<bar> < 2 powi (e + 24)) [- 149..104]")
  case None
  have "\<not> \<bar>x\<bar> < 2 powi (104 + 24)"
    by (rule find_upto_None [OF None]) simp_all
  with assms show ?thesis by simp
next
  case (Some e)
  from find_upto_Some [OF Some] show ?thesis
    unfolding ulp_exponent_def Some by simp
qed

lemma ulp_exponent_least:
  assumes "- 149 \<le> e" and "e \<le> 104" and "\<bar>x\<bar> < 2 powi (e + 24)"
  shows "ulp_exponent x \<le> e"
proof (cases "find (\<lambda>e. \<bar>x\<bar> < 2 powi (e + 24)) [- 149..104]")
  case None
  from find_upto_None [OF None assms(1,2)] assms(3) show ?thesis by simp
next
  case (Some e0)
  from find_upto_Some [OF Some] have "- 149 \<le> e0"
    and first: "\<forall>e'. - 149 \<le> e' \<and> e' < e0 \<longrightarrow> \<not> \<bar>x\<bar> < 2 powi (e' + 24)"
    by blast+
  then have "\<not> e < e0" using assms(1,3) by blast
  then show ?thesis unfolding ulp_exponent_def Some by simp
qed

lemma ulp_exponent_mono:
  assumes "\<bar>x\<bar> \<le> \<bar>y\<bar>"
  shows "ulp_exponent x \<le> ulp_exponent y"
proof (cases "\<bar>y\<bar> < 2 powi 128")
  case True
  have "\<bar>x\<bar> < 2 powi (ulp_exponent y + 24)"
    using ulp_exponent_upper [OF True] assms by linarith
  then show ?thesis
    using ulp_exponent_range [of y] ulp_exponent_least [of "ulp_exponent y" x] by simp
next
  case False
  have "\<not> \<bar>y\<bar> < 2 powi (e + 24)" if "- 149 \<le> e" "e \<le> 104" for e
  proof -
    have "(2::real) powi (e + 24) \<le> 2 powi 128"
      using that by (intro power_int_increasing) simp_all
    with False show ?thesis by linarith
  qed
  then have "find (\<lambda>e. \<bar>y\<bar> < 2 powi (e + 24)) [- 149..104] = None"
    unfolding find_None_iff set_upto by auto
  then have "ulp_exponent y = 104" unfolding ulp_exponent_def by simp
  then show ?thesis using ulp_exponent_range [of x] by simp
qed

lemma round_even_of_int: "round_even (of_int k) = k"
  by (simp add: round_even_def)

lemma round_even_bounds: "\<lfloor>q\<rfloor> \<le> round_even q \<and> round_even q \<le> \<lfloor>q\<rfloor> + 1"
  by (simp add: round_even_def Let_def)

lemma round_even_mono:
  assumes "q \<le> q'"
  shows "round_even q \<le> round_even q'"
proof (cases "\<lfloor>q\<rfloor> = \<lfloor>q'\<rfloor>")
  case True
  then have "q - of_int \<lfloor>q\<rfloor> \<le> q' - of_int \<lfloor>q'\<rfloor>"
    using assms by simp
  then show ?thesis
    using True by (auto simp: round_even_def Let_def)
next
  case False
  then have "\<lfloor>q\<rfloor> < \<lfloor>q'\<rfloor>"
    using assms floor_mono [of q q'] by linarith
  then show ?thesis
    using round_even_bounds [of q] round_even_bounds [of q'] by linarith
qed

lemma round_even_ge: "of_int k \<le> q \<Longrightarrow> k \<le> round_even q"
  using round_even_mono [of "of_int k" q] by (simp add: round_even_of_int)

lemma round_even_le: "q \<le> of_int k \<Longrightarrow> round_even q \<le> k"
  using round_even_mono [of q "of_int k"] by (simp add: round_even_of_int)

lemma round32_nonneg: "0 \<le> x \<Longrightarrow> 0 \<le> round32 x"
proof -
  assume "0 \<le> x"
  then have "of_int 0 \<le> x / 2 powi ulp_exponent x" by simp
  then have "0 \<le> round_even (x / 2 powi ulp_exponent x)" by (rule round_even_ge)
  then show ?thesis by (simp add: round32_def Let_def)
qed

lemma round32_mono_nonneg:
  assumes "0 \<le> x" and "x \<le> y"
  shows "round32 x \<le> round32 y"
proof -
  let ?e = "ulp_exponent x" and ?e' = "ulp_exponent y"
  have le: "?e \<le> ?e'" using assms by (intro ulp_exponent_mono) simp
  show ?thesis
  proof (cases "?e = ?e'")
    case True
    have "x / 2 powi ?e \<le> y / 2 powi ?e"
      using assms by (simp add: divide_right_mono)
    then have "round_even (x / 2 powi ?e) \<le> round_even (y / 2 powi ?e)"
      by (rule round_even_mono)
    then show ?thesis
      unfolding round32_def Let_def True [symmetric] by (simp add: mult_right_mono)
  next
    case False
    then have lt: "?e < ?e'" using le by simp
    then have ne: "?e' \<noteq> - 149" using ulp_exponent_range [of x] by simp
    have ylow: "2 powi (?e' + 23) \<le> y"
      using ulp_exponent_lower [OF ne] assms by simp
    have "?e < 104" using lt ulp_exponent_range [of y] by simp
    have xs: "\<bar>x\<bar> < 2 powi 128"
    proof (rule ccontr)
      assume "\<not> \<bar>x\<bar> < 2 powi 128"
      have "\<not> \<bar>x\<bar> < 2 powi (e + 24)" if "- 149 \<le> e" "e \<le> 104" for e
      proof -
        have "(2::real) powi (e + 24) \<le> 2 powi 128"
          using that by (intro power_int_increasing) simp_all
        with \<open>\<not> \<bar>x\<bar> < 2 powi 128\<close> show ?thesis by linarith
      qed
      then have "find (\<lambda>e. \<bar>x\<bar> < 2 powi (e + 24)) [- 149..104] = None"
        unfolding find_None_iff set_upto by auto
      then have "?e = 104" unfolding ulp_exponent_def by simp
      with \<open>?e < 104\<close> show False by simp
    qed
    have xup: "x < 2 powi (?e + 24)"
      using ulp_exponent_upper [OF xs] assms by simp
    have p: "(2::real) powi (?e + 24) = 2 powi 24 * 2 powi ?e"
      by (simp add: power_int_add)
    have p': "(2::real) powi (?e' + 23) = 2 powi 23 * 2 powi ?e'"
      by (simp add: power_int_add)
    have "x / 2 powi ?e \<le> of_int (2 ^ 24)"
      using xup unfolding p by (simp add: pos_divide_le_eq)
    then have "round_even (x / 2 powi ?e) \<le> 2 ^ 24" by (rule round_even_le)
    then have "of_int (round_even (x / 2 powi ?e)) \<le> (2 powi 24 :: real)"
      by (metis of_int_le_iff of_int_numeral of_int_power power_int_numeral)
    then have "round32 x \<le> 2 powi (?e + 24)"
      unfolding round32_def Let_def p by (simp add: mult_right_mono)
    also have "\<dots> \<le> 2 powi (?e' + 23)"
      using lt by (intro power_int_increasing) simp_all
    also have "\<dots> \<le> round32 y"
    proof -
      have "of_int (2 ^ 23) \<le> y / 2 powi ?e'"
        using ylow unfolding p' by (simp add: pos_le_divide_eq)
      then have "2 ^ 23 \<le> round_even (y / 2 powi ?e')" by (rule round_even_ge)
      then have "(2 powi 23 :: real) \<le> of_int (round_even (y / 2 powi ?e'))"
        by (metis of_int_le_iff of_int_numeral of_int_power power_int_numeral)
      then show ?thesis
        unfolding round32_def Let_def p' by (simp add: mult_right_mono)
    qed
    finally show ?thesis .
  qed
qed

lemma round32_representable:
  assumes "- 149 \<le> e" and "e \<le> 104" and "\<bar>n\<bar> < 2 ^ 24"
  shows "round32 (of_int n * 2 powi e) = of_int n * 2 powi e"
proof -
  let ?x = "of_int n * 2 powi e :: real"
  let ?e' = "ulp_exponent ?x"
  have "\<bar>?x\<bar> = \<bar>of_int n\<bar> * 2 powi e"
    by (simp add: abs_mult)
  also have "\<dots> < 2 ^ 24 * 2 powi e"
    using assms(3) by (intro mult_strict_right_mono) (simp_all flip: of_int_abs)
  also have "\<dots> = 2 powi (e + 24)"
    by (simp add: power_int_add)
  finally have "\<bar>?x\<bar> < 2 powi (e + 24)" .
  then have le: "?e' \<le> e"
    using assms(1,2) by (intro ulp_exponent_least)
  define k where "k = nat (e - ?e')"
  have e: "e = ?e' + int k" using le by (simp add: k_def)
  have "?x / 2 powi ?e' = of_int n * (2 powi e / 2 powi ?e')"
    by simp
  also have "2 powi e / 2 powi ?e' = (2 ^ k :: real)"
    by (subst e) (simp add: power_int_add)
  finally have "?x / 2 powi ?e' = of_int (n * 2 ^ k)"
    by simp
  then have "round_even (?x / 2 powi ?e') = n * 2 ^ k"
    by (simp only: round_even_of_int)
  then have "round32 ?x = of_int (n * 2 ^ k) * 2 powi ?e'"
    by (simp add: round32_def)
  also have "\<dots> = of_int n * (2 ^ k * 2 powi ?e')"
    by simp
  also have "2 ^ k * 2 powi ?e' = (2 powi e :: real)"
    by (subst e) (simp add: power_int_add)
  finally show ?thesis .
qed

section \<open>Properties of the macro curves\<close>

lemma round32_binary:
  assumes "x = of_int n * 2 powi e" and "- 149 \<le> e" and "e \<le> 104" and "\<bar>n\<bar> < 2 ^ 24"
  shows "round32 x = x"
  unfolding assms(1) using assms(2-4) by (rule round32_representable)

lemma round32_2: "round32 2 = 2"
  by (rule round32_binary [where n = 1 and e = 1]) simp_all

lemma smoothstep_mono:
  fixes x y :: real
  assumes "0 \<le> x" "x \<le> y" "y \<le> 1"
  shows "x * x * (3 - 2 * x) \<le> y * y * (3 - 2 * y)"
proof -
  have xx: "x * x \<le> x" using assms by (simp add: mult_left_le)
  have yy: "y * y \<le> y" using assms by (simp add: mult_left_le)
  have xy: "x * y \<le> x" using assms by (simp add: mult_left_le)
  have xy2: "x * y \<le> y" using assms by (simp add: mult_left_le_one_le)
  have "0 \<le> (y - x) * (3 * (x + y) - 2 * (x * x + x * y + y * y))"
    using assms xx yy xy xy2 by (intro mult_nonneg_nonneg) auto
  also have "\<dots> = y * y * (3 - 2 * y) - x * x * (3 - 2 * x)"
    by (simp add: algebra_simps)
  finally show ?thesis by simp
qed

lemma curve_mono01:
  fixes x y :: real
  assumes "0 \<le> x" "x \<le> y" "y \<le> 1"
  shows "(case c of exponential \<Rightarrow> x * x | logarithmic \<Rightarrow> sqrt x
            | sCurve \<Rightarrow> x * x * (3 - 2 * x) | linear \<Rightarrow> x | curveCount \<Rightarrow> x)
       \<le> (case c of exponential \<Rightarrow> y * y | logarithmic \<Rightarrow> sqrt y
            | sCurve \<Rightarrow> y * y * (3 - 2 * y) | linear \<Rightarrow> y | curveCount \<Rightarrow> y)"
  using assms smoothstep_mono [OF assms] by (cases c) (auto intro: mult_mono)

lemma curve_exact_mono:
  assumes "x \<le> y"
  shows "applyMacroCurve (\<lambda>v. v) x c \<le> applyMacroCurve (\<lambda>v. v) y c"
proof -
  have "std_clamp x 0 1 \<le> std_clamp y (0::real) 1"
    using assms by (simp add: std_clamp_mono)
  moreover have "0 \<le> std_clamp x (0::real) 1" "std_clamp y (0::real) 1 \<le> 1"
    using std_clamp_bounds [of "0::real" 1] by simp_all
  ultimately show ?thesis
    unfolding applyMacroCurve_def Let_def by (intro curve_mono01)
qed

lemma curve32_mono:
  assumes "x \<le> y" and "c \<noteq> sCurve"
  shows "applyMacroCurve round32 x c \<le> applyMacroCurve round32 y c"
proof -
  let ?x = "std_clamp x (0::real) 1" and ?y = "std_clamp y (0::real) 1"
  have le: "?x \<le> ?y"
    using assms(1) by (simp add: std_clamp_mono)
  have x0: "0 \<le> ?x" and y1: "?y \<le> 1"
    using std_clamp_bounds [of "0::real" 1] by simp_all
  show ?thesis
  proof (cases c)
    case exponential
    have "?x * ?x \<le> ?y * ?y" using le x0 by (intro mult_mono) simp_all
    moreover have "0 \<le> ?x * ?x" using x0 by simp
    ultimately have "round32 (?x * ?x) \<le> round32 (?y * ?y)"
      by (intro round32_mono_nonneg)
    then show ?thesis by (simp add: applyMacroCurve_def Let_def exponential)
  next
    case logarithmic
    have "round32 (sqrt ?x) \<le> round32 (sqrt ?y)"
      using le x0 by (intro round32_mono_nonneg) simp_all
    then show ?thesis by (simp add: applyMacroCurve_def Let_def logarithmic)
  next
    case sCurve
    with assms(2) show ?thesis by simp
  qed (simp_all add: applyMacroCurve_def Let_def le)
qed

lemma curve_ends:
  "applyMacroCurve (\<lambda>v. v) 0 c = 0" "applyMacroCurve (\<lambda>v. v) 1 c = 1"
  "applyMacroCurve round32 0 c = 0" "applyMacroCurve round32 1 c = 1"
  by (cases c; simp add: applyMacroCurve_def std_clamp_def round32_0 round32_1 round32_2)+

text \<open>
  C4, as claimed: every curve kind is monotonic non-decreasing on \<open>[0, 1]\<close>.  For the
  S-curve as the machine computes it this fails: 13701/16384 and the next binary32 number
  above it, 14029825/16777216, both lie in \<open>[0, 1]\<close>, and the curve gives
  15574851/16777216 at the smaller and 15574850/16777216 at the larger input.
\<close>

theorem sCurve32_not_monotone:
  "round32 (13701 / 16384) = 13701 / 16384 \<and>
   round32 (14029825 / 16777216) = 14029825 / 16777216 \<and>
   (0::real) \<le> 13701 / 16384 \<and>
   (13701 / 16384 :: real) < 14029825 / 16777216 \<and>
   (14029825 / 16777216 :: real) \<le> 1 \<and>
   applyMacroCurve round32 (13701 / 16384) sCurve = 15574851 / 16777216 \<and>
   applyMacroCurve round32 (14029825 / 16777216) sCurve = 15574850 / 16777216 \<and>
   applyMacroCurve round32 (14029825 / 16777216) sCurve
     < applyMacroCurve round32 (13701 / 16384) sCurve"
proof -
  have x: "round32 (13701 / 16384) = 13701 / 16384"
    by (rule round32_binary [where n = 13701 and e = "- 14"]) (simp_all add: power_int_minus)
  have y: "round32 (14029825 / 16777216) = 14029825 / 16777216"
    by (rule round32_binary [where n = 14029825 and e = "- 24"]) (simp_all add: power_int_minus)
  have x2: "round32 (13701 / 8192) = 13701 / 8192"
    by (rule round32_binary [where n = 13701 and e = "- 13"]) (simp_all add: power_int_minus)
  have x3: "round32 (10875 / 8192) = 10875 / 8192"
    by (rule round32_binary [where n = 10875 and e = "- 13"]) (simp_all add: power_int_minus)
  have y2: "round32 (14029825 / 8388608) = 14029825 / 8388608"
    by (rule round32_binary [where n = 14029825 and e = "- 23"]) (simp_all add: power_int_minus)
  have y3: "round32 (11135999 / 8388608) = 11135999 / 8388608"
    by (rule round32_binary [where n = 11135999 and e = "- 23"]) (simp_all add: power_int_minus)
  have xx: "round32 (187717401 / 268435456) = 5866169 / 8388608"
  proof -
    have "ulp_exponent (187717401 / 268435456) = - 24"
      by (rule ulp_exponentI) (simp_all add: power_int_minus)
    then show ?thesis
      unfolding round32_def by (simp add: round_even_def Let_def power_int_minus)
  qed
  have yy: "round32 (196835989530625 / 281474976710656) = 11732339 / 16777216"
  proof -
    have "ulp_exponent (196835989530625 / 281474976710656) = - 24"
      by (rule ulp_exponentI) (simp_all add: power_int_minus)
    then show ?thesis
      unfolding round32_def by (simp add: round_even_def Let_def power_int_minus)
  qed
  have xr: "round32 (63794587875 / 68719476736) = 15574851 / 16777216"
  proof -
    have "ulp_exponent (63794587875 / 68719476736) = - 24"
      by (rule ulp_exponentI) (simp_all add: power_int_minus)
    then show ?thesis
      unfolding round32_def by (simp add: round_even_def Let_def power_int_minus)
  qed
  have yr: "round32 (130651315371661 / 140737488355328) = 7787425 / 8388608"
  proof -
    have "ulp_exponent (130651315371661 / 140737488355328) = - 24"
      by (rule ulp_exponentI) (simp_all add: power_int_minus)
    then show ?thesis
      unfolding round32_def by (simp add: round_even_def Let_def power_int_minus)
  qed
  have fx: "applyMacroCurve round32 (13701 / 16384) sCurve = 15574851 / 16777216"
    by (simp add: applyMacroCurve_def std_clamp_def x2 x3 xx xr)
  have fy: "applyMacroCurve round32 (14029825 / 16777216) sCurve = 15574850 / 16777216"
    by (simp add: applyMacroCurve_def std_clamp_def y2 y3 yy yr)
  show ?thesis
    unfolding fx fy using x y by simp
qed

text \<open>
  C4, amended.  \<open>applyMacroCurve\<close> clamps its input to \<open>[0, 1]\<close> (an input in
  \<open>[0, 1]\<close> is left as it is) and evaluates on the clamped value \<open>x\<close>: Linear
  \<open>x\<close>, Exponential \<open>x \<sqdot> x\<close>, Logarithmic \<open>\<surd>x\<close>, SCurve
  \<open>(x \<sqdot> x) \<sqdot> (3 - 2 \<sqdot> x)\<close>, each operation rounded; without rounding the S-curve is
  \<open>3x\<^sup>2 - 2x\<^sup>3\<close>.  Every kind gives 0 at 0 and 1 at 1, in exact arithmetic and
  in binary32.  In exact arithmetic every kind is monotonic non-decreasing (on the whole
  line, hence on \<open>[0, 1]\<close>); in binary32 every kind other than the S-curve is.
\<close>

theorem applyMacroCurve_shape:
  "applyMacroCurve rnd x linear = std_clamp x 0 1 \<and>
   applyMacroCurve rnd x exponential = rnd (std_clamp x 0 1 * std_clamp x 0 1) \<and>
   applyMacroCurve rnd x logarithmic = rnd (sqrt (std_clamp x 0 1)) \<and>
   applyMacroCurve rnd x sCurve
     = rnd (rnd (std_clamp x 0 1 * std_clamp x 0 1) * rnd (3 - rnd (2 * std_clamp x 0 1))) \<and>
   applyMacroCurve (\<lambda>v. v) x exponential = (std_clamp x 0 1)\<^sup>2 \<and>
   applyMacroCurve (\<lambda>v. v) x sCurve = 3 * (std_clamp x 0 1)\<^sup>2 - 2 * (std_clamp x 0 1) ^ 3 \<and>
   (0 \<le> x \<and> x \<le> 1 \<longrightarrow> std_clamp x 0 1 = x) \<and>
   applyMacroCurve (\<lambda>v. v) 0 c = 0 \<and> applyMacroCurve (\<lambda>v. v) 1 c = 1 \<and>
   applyMacroCurve round32 0 c = 0 \<and> applyMacroCurve round32 1 c = 1 \<and>
   (x \<le> y \<longrightarrow> applyMacroCurve (\<lambda>v. v) x c \<le> applyMacroCurve (\<lambda>v. v) y c) \<and>
   (x \<le> y \<and> c \<noteq> sCurve \<longrightarrow> applyMacroCurve round32 x c \<le> applyMacroCurve round32 y c)"
proof -
  have shapes: "applyMacroCurve rnd x linear = std_clamp x 0 1 \<and>
   applyMacroCurve rnd x exponential = rnd (std_clamp x 0 1 * std_clamp x 0 1) \<and>
   applyMacroCurve rnd x logarithmic = rnd (sqrt (std_clamp x 0 1)) \<and>
   applyMacroCurve rnd x sCurve
     = rnd (rnd (std_clamp x 0 1 * std_clamp x 0 1) * rnd (3 - rnd (2 * std_clamp x 0 1)))"
    by (simp add: applyMacroCurve_def Let_def)
  have exact: "applyMacroCurve (\<lambda>v. v) x exponential = (std_clamp x 0 1)\<^sup>2 \<and>
   applyMacroCurve (\<lambda>v. v) x sCurve = 3 * (std_clamp x 0 1)\<^sup>2 - 2 * (std_clamp x 0 1) ^ 3"
    by (simp add: applyMacroCurve_def Let_def power2_eq_square power3_eq_cube algebra_simps)
  have clamp: "0 \<le> x \<and> x \<le> 1 \<longrightarrow> std_clamp x 0 1 = x"
    by (simp add: std_clamp_def)
  show ?thesis
    using shapes exact clamp curve_ends [of c] curve_exact_mono [of x y c] curve32_mono [of x y c]
    by blast
qed

theorem applyMacroCurve_shape_witness:
  "(0::real) \<le> 1 / 4 \<and> (1 / 4 :: real) \<le> 1 \<and> (1 / 4 :: real) \<le> 1 / 2 \<and>
   exponential \<noteq> sCurve \<and>
   std_clamp (1 / 4 :: real) 0 1 = 1 / 4 \<and>
   applyMacroCurve round32 (1 / 4) exponential = 1 / 16 \<and>
   applyMacroCurve (\<lambda>v. v) (1 / 4) sCurve = 5 / 32 \<and>
   applyMacroCurve (\<lambda>v. v) (1 / 4) exponential \<le> applyMacroCurve (\<lambda>v. v) (1 / 2) exponential \<and>
   applyMacroCurve round32 (1 / 4) exponential \<le> applyMacroCurve round32 (1 / 2) exponential"
proof -
  have r: "round32 (1 / 16) = 1 / 16"
    by (rule round32_binary [where n = 1 and e = "- 4"]) (simp_all add: power_int_minus)
  show ?thesis
    using applyMacroCurve_shape [where x = "1 / 4" and y = "1 / 2" and c = exponential
        and rnd = round32]
    by (simp add: std_clamp_def r power2_eq_square power3_eq_cube)
qed

section \<open>Properties of the macro engine\<close>

lemma upt_4: "[0..<4] = [0, 1, 2, 3]"
  by (simp add: upt_rec [of _ "numeral _"] upt_rec [of _ "Suc _"])

lemma apply_target_claimed: "apply_target rnd v q t = claimed_update rnd q (v, t)"
  by (simp add: apply_target_def claimed_update_def Let_def)

lemma apply_macro_claimed:
  "apply_macro rnd eng mv q m =
     foldl (claimed_update rnd) q
       (if mv ! m < 1 / 1000 then [] else map (\<lambda>t. (mv ! m, t)) (mappings eng ! m))"
proof -
  have "foldl (apply_target rnd v) q ts = foldl (claimed_update rnd) q (map (\<lambda>t. (v, t)) ts)"
    for v ts
    by (induction ts arbitrary: q) (simp_all add: apply_target_claimed)
  then show ?thesis
    by (simp add: apply_macro_def Let_def)
qed

lemma foldl_concat_map:
  "foldl f p (concat (map g ms)) = foldl (\<lambda>q m. foldl f q (g m)) p ms"
  by (induction ms arbitrary: p) simp_all

lemma MacroEngine_apply_claimed:
  "MacroEngine_apply rnd eng p mv = foldl (claimed_update rnd) p (active_targets eng mv)"
proof -
  have "apply_macro rnd eng mv =
      (\<lambda>q m. foldl (claimed_update rnd) q
         (if mv ! m < 1 / 1000 then [] else map (\<lambda>t. (mv ! m, t)) (mappings eng ! m)))"
    by (intro ext) (rule apply_macro_claimed)
  then show ?thesis
    unfolding MacroEngine_apply_def active_targets_def foldl_concat_map by simp
qed

lemma claimed_update_continuous:
  assumes "0 \<le> sceneParamIndex t" and "sceneParamIndex t < 14"
    and "\<not> isDiscrete (info ! nat (sceneParamIndex t))"
  shows "claimed_update rnd q (v, t) =
     q\<lparr>vals := (vals q)[nat (sceneParamIndex t) :=
        std_clamp
          (rnd (vals q ! nat (sceneParamIndex t) +
             rnd (rnd (applyMacroCurve rnd v (curve t) * amount t) *
                  rnd (maxVal (info ! nat (sceneParamIndex t))
                       - minVal (info ! nat (sceneParamIndex t))))))
          (minVal (info ! nat (sceneParamIndex t)))
          (maxVal (info ! nat (sceneParamIndex t)))]\<rparr>"
  using assms by (simp add: claimed_update_def Let_def kCount_def)

lemma round32_engine_values:
  "round32 (1 / 4) = 1 / 4" "round32 (1 / 8) = 1 / 8" "round32 19980 = 19980"
  "round32 (4995 / 2) = 4995 / 2" "round32 (20995 / 2) = 20995 / 2"
  "round32 27980 = 27980" "round32 (- (1 / 2)) = - (1 / 2)" "round32 (- 9990) = - 9990"
  "round32 10010 = 10010"
proof -
  show "round32 (1 / 4) = 1 / 4"
    by (rule round32_binary [where n = 1 and e = "- 2"]) (simp_all add: power_int_minus)
  show "round32 (1 / 8) = 1 / 8"
    by (rule round32_binary [where n = 1 and e = "- 3"]) (simp_all add: power_int_minus)
  show "round32 19980 = 19980"
    by (rule round32_binary [where n = 19980 and e = 0]) simp_all
  show "round32 (4995 / 2) = 4995 / 2"
    by (rule round32_binary [where n = 4995 and e = "- 1"]) (simp_all add: power_int_minus)
  show "round32 (20995 / 2) = 20995 / 2"
    by (rule round32_binary [where n = 20995 and e = "- 1"]) (simp_all add: power_int_minus)
  show "round32 27980 = 27980"
    by (rule round32_binary [where n = 27980 and e = 0]) simp_all
  show "round32 (- (1 / 2)) = - (1 / 2)"
    by (rule round32_binary [where n = "- 1" and e = "- 1"]) (simp_all add: power_int_minus)
  show "round32 (- 9990) = - 9990"
    by (rule round32_binary [where n = "- 9990" and e = 0]) simp_all
  show "round32 10010 = 10010"
    by (rule round32_binary [where n = 10010 and e = 0]) simp_all
qed

lemma scenario_targets:
  "active_targets scenarioEngine [1 / 2, 0, 0, 0]
     = [(1 / 2, \<lparr>sceneParamIndex = int filtCutoff, amount = 1 / 2, curve = exponential\<rparr>)]"
  by (simp add: active_targets_def scenarioEngine_def kNumMacros_def upt_4)

lemma upDown_targets:
  "active_targets upDownEngine [1, 1, 0, 0]
     = [(1, \<lparr>sceneParamIndex = int filtCutoff, amount = 1, curve = linear\<rparr>),
        (1, \<lparr>sceneParamIndex = int filtCutoff, amount = - (1 / 2), curve = linear\<rparr>)]"
  by (simp add: active_targets_def upDownEngine_def kNumMacros_def upt_4)

lemma scenario_curved: "applyMacroCurve round32 (1 / 2) exponential = 1 / 4"
  by (simp add: applyMacroCurve_def std_clamp_def round32_engine_values)

lemma scenario_offset:
  "round32 (round32 (1 / 4 * (1 / 2)) *
      round32 (maxVal (info ! filtCutoff) - minVal (info ! filtCutoff))) = 24975 / 10"
  by (simp add: info_cutoff round32_engine_values)

lemma claimed_update_cutoff:
  "claimed_update rnd q (v, \<lparr>sceneParamIndex = int filtCutoff, amount = a, curve = c\<rparr>)
     = q\<lparr>vals := (vals q)[filtCutoff :=
         std_clamp (rnd (vals q ! filtCutoff + rnd (rnd (applyMacroCurve rnd v c * a) * rnd 19980)))
           20 20000]\<rparr>"
  using filtCutoff_bound by (simp add: claimed_update_def Let_def kCount_def info_cutoff)

lemma cutoff_createDefault:
  "filtCutoff < length (vals createDefault)" "vals createDefault ! filtCutoff = 8000"
  by (simp_all add: vals_createDefault filtCutoff_def)

lemma scenario_cutoff32:
  assumes "length (vals p) = 14"
  shows "vals (MacroEngine_apply round32 scenarioEngine p [1 / 2, 0, 0, 0]) ! filtCutoff
     = std_clamp (round32 (vals p ! filtCutoff + 24975 / 10)) 20 20000"
proof -
  have "filtCutoff < length (vals p)"
    using assms by (simp add: filtCutoff_def)
  then show ?thesis
    by (simp add: MacroEngine_apply_claimed scenario_targets claimed_update_cutoff
        scenario_curved round32_engine_values)
qed

lemma scenario_cutoff_exact:
  assumes "length (vals p) = 14"
  shows "vals (MacroEngine_apply (\<lambda>v. v) scenarioEngine p [1 / 2, 0, 0, 0]) ! filtCutoff
     = std_clamp (vals p ! filtCutoff + 24975 / 10) 20 20000"
proof -
  have "filtCutoff < length (vals p)"
    using assms by (simp add: filtCutoff_def)
  moreover have "applyMacroCurve (\<lambda>v. v) (1 / 2) exponential * (1 / 2) * 19980 = 24975 / 10"
    by (simp add: applyMacroCurve_def std_clamp_def)
  ultimately show ?thesis
    by (simp only: MacroEngine_apply_claimed scenario_targets claimed_update_cutoff
        foldl_Cons foldl_Nil) simp
qed

lemma linear_at_1: "applyMacroCurve rnd 1 linear = 1"
  by (simp add: applyMacroCurve_def std_clamp_def)

lemma upDown_steps:
  "claimed_update round32 createDefault
      (1, \<lparr>sceneParamIndex = int filtCutoff, amount = 1, curve = linear\<rparr>)
     = createDefault\<lparr>vals := (vals createDefault)[filtCutoff := 20000]\<rparr>"
  "claimed_update round32 (createDefault\<lparr>vals := (vals createDefault)[filtCutoff := 20000]\<rparr>)
      (1, \<lparr>sceneParamIndex = int filtCutoff, amount = - (1 / 2), curve = linear\<rparr>)
     = createDefault\<lparr>vals := (vals createDefault)[filtCutoff := 10010]\<rparr>"
  by (simp_all add: claimed_update_cutoff cutoff_createDefault linear_at_1 std_clamp_def
      round32_1 round32_engine_values)

lemma upDown_result:
  "MacroEngine_apply round32 upDownEngine createDefault [1, 1, 0, 0]
     = createDefault\<lparr>vals := (vals createDefault)[filtCutoff := 10010]\<rparr>"
  by (simp add: MacroEngine_apply_claimed upDown_targets upDown_steps)

text \<open>
  C5.  \<open>MacroEngine::apply\<close> is a single left-to-right pass over the targets of the
  macros that are not passed over (macro 0 first, each macro's targets in list order), the
  scene being handed from one target to the next: every target starts from the scene that
  all targets before it in the same call have left, also those of an earlier macro.  A
  target on a continuous field replaces the field's current value \<open>c\<close> by
  \<open>clamp (c + applyMacroCurve (macroValue, curve) \<sqdot> weight \<sqdot> (max - min), min, max)\<close>,
  each \<open>float\<close> operation rounded.  For the single target on the cutoff (range 20 to
  20000) with weight 0.5 and the exponential curve, the macro value 0.5 gives the curved
  value 0.25 and the offset 0.25 \<sqdot> 0.5 \<sqdot> 19980 = 2497.5 (both without rounding error), and
  the call leaves the base cutoff plus 2497.5, capped at 20000, in the cutoff.  With a first
  macro that raises the default cutoff 8000 by the full range and a second that lowers it by
  half the range, the call leaves 10010: the second macro has started from the 20000 that
  the first one wrote.
\<close>

theorem MacroEngine_apply_running_value:
  "MacroEngine_apply rnd eng p mv = foldl (claimed_update rnd) p (active_targets eng mv) \<and>
   (0 \<le> sceneParamIndex t \<and> sceneParamIndex t < 14 \<and>
      \<not> isDiscrete (info ! nat (sceneParamIndex t)) \<longrightarrow>
    claimed_update rnd q (v, t) =
      q\<lparr>vals := (vals q)[nat (sceneParamIndex t) :=
        std_clamp
          (rnd (vals q ! nat (sceneParamIndex t) +
             rnd (rnd (applyMacroCurve rnd v (curve t) * amount t) *
                  rnd (maxVal (info ! nat (sceneParamIndex t))
                       - minVal (info ! nat (sceneParamIndex t))))))
          (minVal (info ! nat (sceneParamIndex t)))
          (maxVal (info ! nat (sceneParamIndex t)))]\<rparr>) \<and>
   applyMacroCurve round32 (1 / 2) exponential = 1 / 4 \<and>
   round32 (round32 (1 / 4 * (1 / 2)) *
      round32 (maxVal (info ! filtCutoff) - minVal (info ! filtCutoff))) = 24975 / 10 \<and>
   (length (vals p) = 14 \<longrightarrow>
    vals (MacroEngine_apply round32 scenarioEngine p [1 / 2, 0, 0, 0]) ! filtCutoff
      = std_clamp (round32 (vals p ! filtCutoff + 24975 / 10)) 20 20000 \<and>
    vals (MacroEngine_apply (\<lambda>v. v) scenarioEngine p [1 / 2, 0, 0, 0]) ! filtCutoff
      = std_clamp (vals p ! filtCutoff + 24975 / 10) 20 20000) \<and>
   MacroEngine_apply round32 upDownEngine createDefault [1, 1, 0, 0]
     = createDefault\<lparr>vals := (vals createDefault)[filtCutoff := 10010]\<rparr>"
  using MacroEngine_apply_claimed [of rnd eng p mv] claimed_update_continuous [of t rnd q v]
    scenario_curved scenario_offset scenario_cutoff32 [of p] scenario_cutoff_exact [of p]
    upDown_result
  by blast

theorem MacroEngine_apply_running_value_witness:
  "0 \<le> int filtCutoff \<and> int filtCutoff < 14 \<and> \<not> isDiscrete (info ! filtCutoff) \<and>
   length (vals createDefault) = 14 \<and>
   active_targets upDownEngine [1, 1, 0, 0]
     = [(1, \<lparr>sceneParamIndex = int filtCutoff, amount = 1, curve = linear\<rparr>),
        (1, \<lparr>sceneParamIndex = int filtCutoff, amount = - (1 / 2), curve = linear\<rparr>)] \<and>
   vals (MacroEngine_apply round32 upDownEngine createDefault [1, 1, 0, 0]) ! filtCutoff = 10010 \<and>
   vals (claimed_update round32 createDefault
      (1, \<lparr>sceneParamIndex = int filtCutoff, amount = 1, curve = linear\<rparr>)) ! filtCutoff = 20000 \<and>
   vals (MacroEngine_apply round32 scenarioEngine createDefault [1 / 2, 0, 0, 0]) ! filtCutoff
     = 104975 / 10"
proof -
  have pre: "length (vals createDefault) = 14" "vals createDefault ! filtCutoff = 8000"
    by (simp_all add: vals_createDefault filtCutoff_def)
  show ?thesis
    using MacroEngine_apply_running_value [where rnd = round32 and eng = upDownEngine
        and p = createDefault and mv = "[1, 1, 0, 0]" and q = createDefault and v = 1
        and t = "\<lparr>sceneParamIndex = int filtCutoff, amount = 1, curve = linear\<rparr>"]
      filtCutoff_bound
    by (simp add: pre upDown_targets upDown_steps info_cutoff cutoff_createDefault linear_at_1
        std_clamp_def round32_1 round32_engine_values)
qed

lemma macro_threshold_float:
  assumes "round32 x = x"
  shows "x < 1 / 1000 \<longleftrightarrow> x < 8589935 / 8589934592"
proof
  assume "x < 1 / 1000"
  then show "x < 8589935 / 8589934592" by simp
next
  assume less: "x < 8589935 / 8589934592"
  show "x < 1 / 1000"
  proof (rule ccontr)
    assume "\<not> x < 1 / 1000"
    then have ge: "1 / 1000 \<le> x" by simp
    have e: "ulp_exponent x = - 33"
      using ge less by (intro ulp_exponentI) (simp_all add: power_int_minus)
    define n where "n = round_even (x / 2 powi (- 33))"
    have x: "x = of_int n / 8589934592"
      using assms unfolding round32_def e n_def by (simp add: Let_def power_int_minus)
    from ge have "8589934 < n" unfolding x by linarith
    moreover from less have "n < 8589935" unfolding x by simp
    ultimately show False by simp
  qed
qed

lemma apply_macro_skip: "mv ! m < 1 / 1000 \<Longrightarrow> apply_macro rnd eng mv p m = p"
  by (simp add: apply_macro_def)

lemma apply_macro_cong:
  "mappings eng' ! m = mappings eng ! m \<Longrightarrow>
     apply_macro rnd eng' mv p m = apply_macro rnd eng mv p m"
  by (simp add: apply_macro_def Let_def)

lemma MacroEngine_apply_unfold:
  "MacroEngine_apply rnd eng p mv =
     apply_macro rnd eng mv
       (apply_macro rnd eng mv (apply_macro rnd eng mv (apply_macro rnd eng mv p 0) 1) 2) 3"
  by (simp add: MacroEngine_apply_def kNumMacros_def upt_4)

text \<open>
  C6.  With all four macro values equal to 0, \<open>MacroEngine::apply\<close> returns the scene
  unchanged, whatever the mappings are and whatever the rounding of the arithmetic is.  More
  generally a macro whose value is below 0.001 leaves the scene as it is when its turn
  comes, and the result of the whole call is the same as if that macro had any other target
  list \<open>ts\<close> (for instance none).
\<close>

theorem apply_skips_small_macros:
  "MacroEngine_apply rnd eng p [0, 0, 0, 0] = p \<and>
   (mv ! m < 1 / 1000 \<longrightarrow> apply_macro rnd eng mv p m = p) \<and>
   (m < 4 \<and> length (mappings eng) = 4 \<and> mv ! m < 1 / 1000 \<longrightarrow>
      MacroEngine_apply rnd eng p mv = MacroEngine_apply rnd (setMappings (int m) ts eng) p mv)"
proof -
  have zero: "MacroEngine_apply rnd eng p [0, 0, 0, 0] = p"
    by (simp add: MacroEngine_apply_unfold apply_macro_def)
  have same: "MacroEngine_apply rnd eng p mv
      = MacroEngine_apply rnd (setMappings (int m) ts eng) p mv"
    if m: "m < 4" and len: "length (mappings eng) = 4" and small: "mv ! m < 1 / 1000"
  proof -
    let ?eng' = "setMappings (int m) ts eng"
    have step: "apply_macro rnd ?eng' mv q k = apply_macro rnd eng mv q k" if "k < 4" for q k
    proof (cases "k = m")
      case True
      then show ?thesis using small by (simp add: apply_macro_skip)
    next
      case False
      then have "mappings ?eng' ! k = mappings eng ! k"
        using m by (simp add: setMappings_def kNumMacros_def)
      then show ?thesis by (rule apply_macro_cong)
    qed
    show ?thesis
      by (simp add: MacroEngine_apply_unfold step)
  qed
  show ?thesis using zero same apply_macro_skip [of mv m rnd eng p] by blast
qed

theorem apply_skips_small_macros_witness:
  "[0, 1, 0, 0 :: real] ! 0 < 1 / 1000 \<and> (0::nat) < 4 \<and>
   length (mappings initDefaultMappings) = 4 \<and>
   apply_macro round32 initDefaultMappings [0, 1, 0, 0] createDefault 0 = createDefault \<and>
   MacroEngine_apply round32 initDefaultMappings createDefault [0, 1, 0, 0] =
     MacroEngine_apply round32 (setMappings (int 0) [] initDefaultMappings) createDefault
       [0, 1, 0, 0]"
  using apply_skips_small_macros [where eng = initDefaultMappings and p = createDefault
      and mv = "[0, 1, 0, 0]" and m = 0 and ts = "[]" and rnd = round32]
  by (simp add: initDefaultMappings_def)

section \<open>Properties of the index handling\<close>





lemma sceneIdx_bounds:
  "0 \<le> sceneIdx raw \<and> sceneIdx raw \<le> int kNumScenes - 1 \<and> nat (sceneIdx raw) < kNumScenes"
  by (auto simp: sceneIdx_def std_clamp_def kNumScenes_def)














section \<open>Properties of the scene bank\<close>

lemma ranges_ordered: "\<forall>i<14. minVal (info ! i) \<le> maxVal (info ! i)"
  unfolding all_below_14 by (simp add: info_def upt_rec [of _ "numeral _"] upt_rec [of _ "Suc _"])

lemma clamp_inRange:
  "i < 14 \<Longrightarrow> fieldInRange i (std_clamp x (minVal (info ! i)) (maxVal (info ! i)))"
  using ranges_ordered unfolding fieldInRange_def by (intro std_clamp_bounds) blast

lemma sceneInRange_iff:
  "sceneInRange s \<longleftrightarrow> length (vals s) = 14 \<and> (\<forall>i<14. fieldInRange i (vals s ! i))"
  by (auto simp: sceneInRange_def kCount_def list_all_iff simp del: upt_Suc)

lemma sceneInRange_update:
  assumes "sceneInRange s" and "fieldInRange i v"
  shows "sceneInRange (s\<lparr>vals := (vals s)[i := v]\<rparr>)"
proof (cases "i < length (vals s)")
  case True
  then show ?thesis
    using assms by (auto simp: sceneInRange_iff nth_list_update)
next
  case False
  then have "(vals s)[i := v] = vals s"
    by (simp add: not_less list_update_beyond)
  then show ?thesis
    using assms(1) by simp
qed

lemma sceneInRange_update_iff:
  assumes "sceneInRange s" and "i < 14"
  shows "sceneInRange (s\<lparr>vals := (vals s)[i := v]\<rparr>) \<longleftrightarrow> fieldInRange i v"
proof
  assume "sceneInRange (s\<lparr>vals := (vals s)[i := v]\<rparr>)"
  then have "\<forall>j<14. fieldInRange j ((vals s)[i := v] ! j)"
    by (simp add: sceneInRange_iff)
  then have "fieldInRange i ((vals s)[i := v] ! i)"
    using assms(2) by blast
  moreover have "i < length (vals s)"
    using assms by (simp add: sceneInRange_iff)
  ultimately show "fieldInRange i v"
    by simp
next
  assume "fieldInRange i v"
  then show "sceneInRange (s\<lparr>vals := (vals s)[i := v]\<rparr>)"
    using assms(1) by (rule sceneInRange_update [rotated])
qed

lemma bank_update:
  assumes "length bank = 8" "list_all sceneInRange bank" "sceneInRange sc"
  shows "length (bank[k := sc]) = 8 \<and> list_all sceneInRange (bank[k := sc])"
  using assms by (auto simp: list_all_iff dest!: set_update_subset_insert [THEN subsetD])

lemma bank_nth:
  "list_all sceneInRange bank \<Longrightarrow> k < length bank \<Longrightarrow> sceneInRange (bank ! k)"
  by (simp add: list_all_iff)

lemma setSceneParam_inRange:
  assumes "bankInRange st" and "fieldInRange (nat paramIndex) v"
  shows "bankInRange (setSceneParam sceneIndex paramIndex v st)"
proof (cases "sceneIndex \<ge> 0 \<and> sceneIndex < 8 \<and> paramIndex \<ge> 0 \<and> paramIndex < 14")
  case True
  then have "nat sceneIndex < 8" by linarith
  then have k: "nat sceneIndex < length (scenes st)"
    using assms(1) by (simp add: bankInRange_def kNumScenes_def)
  have "sceneInRange ((scenes st ! nat sceneIndex)\<lparr>vals :=
      (vals (scenes st ! nat sceneIndex))[nat paramIndex := v]\<rparr>)"
    using assms k by (intro sceneInRange_update bank_nth) (simp_all add: bankInRange_def)
  then show ?thesis
    using assms(1) True bank_update [of "scenes st"]
    by (simp add: setSceneParam_def bankInRange_def kNumScenes_def kCount_def)
next
  case False
  then show ?thesis
    using assms(1) by (auto simp: setSceneParam_def kNumScenes_def kCount_def)
qed

lemma setSceneParam_inRange_iff:
  assumes "bankInRange st" and "0 \<le> sceneIndex" "sceneIndex < 8" "0 \<le> paramIndex" "paramIndex < 14"
  shows "bankInRange (setSceneParam sceneIndex paramIndex v st) \<longleftrightarrow> fieldInRange (nat paramIndex) v"
proof
  assume r: "bankInRange (setSceneParam sceneIndex paramIndex v st)"
  have "nat sceneIndex < 8" using assms(2,3) by linarith
  then have k: "nat sceneIndex < length (scenes st)"
    using assms(1) by (simp add: bankInRange_def kNumScenes_def)
  have p: "nat paramIndex < 14" using assms(4,5) by linarith
  have "scenes (setSceneParam sceneIndex paramIndex v st) ! nat sceneIndex =
      (scenes st ! nat sceneIndex)\<lparr>vals := (vals (scenes st ! nat sceneIndex))[nat paramIndex := v]\<rparr>"
    using assms(2-5) k by (simp add: setSceneParam_def kNumScenes_def kCount_def)
  moreover have "sceneInRange (scenes (setSceneParam sceneIndex paramIndex v st) ! nat sceneIndex)"
    using r k assms(2-5)
    by (intro bank_nth) (simp_all add: bankInRange_def setSceneParam_def kNumScenes_def kCount_def)
  ultimately show "fieldInRange (nat paramIndex) v"
    using sceneInRange_update_iff [OF bank_nth p, of "scenes st" "nat sceneIndex" v] assms(1) k
    by (simp add: bankInRange_def)
next
  assume "fieldInRange (nat paramIndex) v"
  then show "bankInRange (setSceneParam sceneIndex paramIndex v st)"
    using assms(1) by (intro setSceneParam_inRange)
qed

lemma storeScene_loop:
  assumes "sceneInRange sc" and "\<forall>p\<in>set ps. fieldInRange p (m p)"
  shows "sceneInRange (foldl (\<lambda>scene p. scene\<lparr>vals := (vals scene)[p := m p]\<rparr>) sc ps)"
  using assms by (induction ps arbitrary: sc) (simp_all add: sceneInRange_update)

lemma storeScene_inRange:
  assumes "bankInRange st" and "\<forall>p<14. fieldInRange p (moduleParams (apvts st) p)"
  shows "bankInRange (storeScene sceneIndex st)"
proof (cases "sceneIndex < 0 \<or> sceneIndex \<ge> 8")
  case True
  then show ?thesis using assms(1) by (auto simp: storeScene_def kNumScenes_def)
next
  case False
  then have "nat sceneIndex < 8" by linarith
  then have k: "nat sceneIndex < length (scenes st)"
    using assms(1) by (simp add: bankInRange_def kNumScenes_def)
  have "sceneInRange (foldl (\<lambda>scene p. scene\<lparr>vals := (vals scene)[p := moduleParams (apvts st) p]\<rparr>)
      (scenes st ! nat sceneIndex) [0..<kCount])"
    using assms k by (intro storeScene_loop bank_nth) (simp_all add: bankInRange_def kCount_def)
  then show ?thesis
    using assms(1) False bank_update [of "scenes st"]
    by (simp add: storeScene_def bankInRange_def kNumScenes_def)
qed

lemma round32_table_bounds:
  "round32 7 = 7" "round32 20 = 20" "round32 200 = 200" "round32 20000 = 20000"
  "round32 (15938355 / 16777216) = 15938355 / 16777216"
proof -
  show "round32 7 = 7"
    by (rule round32_binary [where n = 7 and e = 0]) simp_all
  show "round32 20 = 20"
    by (rule round32_binary [where n = 20 and e = 0]) simp_all
  show "round32 200 = 200"
    by (rule round32_binary [where n = 200 and e = 0]) simp_all
  show "round32 20000 = 20000"
    by (rule round32_binary [where n = 20000 and e = 0]) simp_all
  show "round32 (15938355 / 16777216) = 15938355 / 16777216"
    by (rule round32_binary [where n = 15938355 and e = "- 24"]) (simp_all add: power_int_minus)
qed

lemma table_bounds_binary32:
  "\<forall>i<14. 0 \<le> minVal (info ! i) \<and> round32 (minVal (info ! i)) = minVal (info ! i) \<and>
     round32 (maxVal (info ! i)) = maxVal (info ! i)"
  unfolding all_below_14
  by (simp add: info_def upt_rec [of _ "numeral _"] upt_rec [of _ "Suc _"]
      round32_0 round32_1 round32_2 round32_table_bounds)

lemma round32_inRange:
  assumes "i < 14" and "fieldInRange i v"
  shows "fieldInRange i (round32 v)"
proof -
  from table_bounds_binary32 assms(1)
  have lo0: "0 \<le> minVal (info ! i)" and lo: "round32 (minVal (info ! i)) = minVal (info ! i)"
    and hi: "round32 (maxVal (info ! i)) = maxVal (info ! i)"
    by blast+
  from assms(2) have v: "minVal (info ! i) \<le> v" "v \<le> maxVal (info ! i)"
    by (simp_all add: fieldInRange_def)
  have "round32 (minVal (info ! i)) \<le> round32 v"
    using lo0 v(1) by (rule round32_mono_nonneg)
  moreover have "round32 v \<le> round32 (maxVal (info ! i))"
    using lo0 v by (intro round32_mono_nonneg) simp_all
  ultimately show ?thesis
    by (simp add: fieldInRange_def lo hi)
qed

lemma restore_scene_loop:
  assumes "length bank = 8 \<and> list_all sceneInRange bank" and "k < 8"
    and "\<forall>p\<in>set ps. p < 14 \<and> (case f p of None \<Rightarrow> True | Some v \<Rightarrow> fieldInRange p v)"
  shows "length (foldl (\<lambda>bank p. case f p of None \<Rightarrow> bank
            | Some v \<Rightarrow> bank[k := (bank ! k)\<lparr>vals := (vals (bank ! k))[p := round32 v]\<rparr>])
            bank ps) = 8 \<and>
         list_all sceneInRange (foldl (\<lambda>bank p. case f p of None \<Rightarrow> bank
            | Some v \<Rightarrow> bank[k := (bank ! k)\<lparr>vals := (vals (bank ! k))[p := round32 v]\<rparr>])
            bank ps)"
  using assms
proof (induction ps arbitrary: bank)
  case Nil
  then show ?case by simp
next
  case (Cons p ps)
  show ?case
  proof (cases "f p")
    case None
    then show ?thesis using Cons by simp
  next
    case (Some v)
    then have "p < 14" "fieldInRange p v" using Cons.prems(3) by simp_all
    then have v: "fieldInRange p (round32 v)" by (rule round32_inRange)
    have "sceneInRange ((bank ! k)\<lparr>vals := (vals (bank ! k))[p := round32 v]\<rparr>)"
      using Cons.prems(1,2) v by (intro sceneInRange_update bank_nth) simp_all
    then have "length (bank[k := (bank ! k)\<lparr>vals := (vals (bank ! k))[p := round32 v]\<rparr>]) = 8 \<and>
        list_all sceneInRange (bank[k := (bank ! k)\<lparr>vals := (vals (bank ! k))[p := round32 v]\<rparr>])"
      using Cons.prems(1) by (intro bank_update) simp_all
    then show ?thesis
      using Cons.IH [OF _ Cons.prems(2)] Cons.prems(3) Some by simp
  qed
qed

lemma restore_scene_inRange:
  assumes "length bank = 8 \<and> list_all sceneInRange bank" and "sceneXmlInRange sx"
  shows "length (restore_scene bank sx) = 8 \<and> list_all sceneInRange (restore_scene bank sx)"
proof (cases "getIntAttribute (sx_index sx) (- 1) < 0 \<or> getIntAttribute (sx_index sx) (- 1) \<ge> 8")
  case True
  then show ?thesis using assms(1) by (auto simp: restore_scene_def Let_def kNumScenes_def)
next
  case False
  then have k: "nat (getIntAttribute (sx_index sx) (- 1)) < 8" by linarith
  have ps: "\<forall>p\<in>set [0..<kCount].
      p < 14 \<and> (case sx_attrs sx p of None \<Rightarrow> True | Some v \<Rightarrow> fieldInRange p v)"
    using assms(2) by (simp add: sceneXmlInRange_def list_all_iff kCount_def)
  show ?thesis
    using False restore_scene_loop [OF assms(1) k ps]
    by (simp add: restore_scene_def Let_def kNumScenes_def)
qed

lemma restore_scenes_inRange:
  assumes "length bank = 8 \<and> list_all sceneInRange bank" and "list_all sceneXmlInRange elems"
  shows "length (foldl restore_scene bank elems) = 8 \<and> list_all sceneInRange (foldl restore_scene bank elems)"
  using assms
  by (induction elems arbitrary: bank) (simp_all add: restore_scene_inRange)

lemma setStateInformation_inRange:
  assumes "bankInRange st" and "stateXmlInRange xml"
  shows "bankInRange (setStateInformation xml st)"
proof -
  have b: "length (scenes st) = 8 \<and> list_all sceneInRange (scenes st)"
    using assms(1) by (simp add: bankInRange_def kNumScenes_def)
  show ?thesis
    using assms restore_scenes_inRange [OF b]
    by (auto simp: setStateInformation_def stateXmlInRange_def bankInRange_def kNumScenes_def Let_def
        split: option.splits StateXml.splits)
qed

lemma lerp_between:
  fixes a b t lo hi :: real
  assumes "lo \<le> a" "a \<le> hi" "lo \<le> b" "b \<le> hi" "0 \<le> t" "t \<le> 1"
  shows "lo \<le> a + t * (b - a) \<and> a + t * (b - a) \<le> hi"
proof -
  have eq: "a + t * (b - a) = (1 - t) * a + t * b"
    by (simp add: algebra_simps)
  have "(1 - t) * lo + t * lo \<le> (1 - t) * a + t * b"
    using assms by (intro add_mono mult_left_mono) simp_all
  moreover have "(1 - t) * a + t * b \<le> (1 - t) * hi + t * hi"
    using assms by (intro add_mono mult_left_mono) simp_all
  ultimately show ?thesis
    unfolding eq by (simp add: algebra_simps)
qed

lemma morph_inRange:
  assumes "sceneInRange a" "sceneInRange b" "0 \<le> t" "t \<le> 1"
  shows "sceneInRange (morph a b t)"
proof -
  have "fieldInRange i (vals (morph a b t) ! i)" if "i < 14" for i
  proof -
    have a: "fieldInRange i (vals a ! i)" and b: "fieldInRange i (vals b ! i)"
      using assms(1,2) that by (simp_all add: sceneInRange_iff)
    show ?thesis
      using a b lerp_between [of "minVal (info ! i)" "vals a ! i" "maxVal (info ! i)" "vals b ! i" t] assms(3,4)
      by (simp add: morph_def morph_with_nth [OF that] morph_value_def fieldInRange_def)
  qed
  moreover have "length (vals (morph a b t)) = 14"
    by (simp add: morph_def morph_with_def kCount_def del: upt_Suc)
  ultimately show ?thesis
    by (simp add: sceneInRange_iff)
qed

lemma claimed_update_length: "length (vals (claimed_update rnd q vt)) = length (vals q)"
  by (simp add: claimed_update_def Let_def)

lemma claimed_update_keeps:
  assumes "i < 14" and "fieldInRange i (vals q ! i)"
  shows "fieldInRange i (vals (claimed_update rnd q vt) ! i)"
proof (cases "0 \<le> sceneParamIndex (snd vt) \<and> sceneParamIndex (snd vt) < int kCount \<and>
    \<not> isDiscrete (info ! nat (sceneParamIndex (snd vt)))")
  case False
  then show ?thesis
    using assms(2) by (auto simp: claimed_update_def Let_def)
next
  case True
  let ?j = "nat (sceneParamIndex (snd vt))"
  obtain c where upd: "claimed_update rnd q vt =
      q\<lparr>vals := (vals q)[?j := std_clamp c (minVal (info ! ?j)) (maxVal (info ! ?j))]\<rparr>"
    using True by (simp add: claimed_update_def Let_def)
  show ?thesis
  proof (cases "?j = i \<and> i < length (vals q)")
    case True
    then show ?thesis
      using clamp_inRange [OF assms(1)] by (simp add: upd)
  next
    case False
    then have "(vals q)[?j := std_clamp c (minVal (info ! ?j)) (maxVal (info ! ?j))] ! i
        = vals q ! i"
      by (cases "?j = i") (simp_all add: list_update_beyond)
    then show ?thesis
      using assms(2) by (simp add: upd)
  qed
qed

lemma claimed_update_establishes:
  assumes "i < 14" and "\<not> isDiscrete (info ! i)" and "sceneParamIndex (snd vt) = int i"
    and "i < length (vals q)"
  shows "fieldInRange i (vals (claimed_update rnd q vt) ! i)"
  using assms clamp_inRange [OF assms(1)]
  by (simp add: claimed_update_def Let_def kCount_def)

lemma fold_claimed_field:
  assumes "i < 14" and "length (vals q) = 14"
    and "fieldInRange i (vals q ! i) \<or>
         (\<not> isDiscrete (info ! i) \<and> (\<exists>vt\<in>set vts. sceneParamIndex (snd vt) = int i))"
  shows "fieldInRange i (vals (foldl (claimed_update rnd) q vts) ! i)"
  using assms(2,3)
proof (induction vts arbitrary: q)
  case Nil
  then show ?case by simp
next
  case (Cons vt vts)
  have len: "length (vals (claimed_update rnd q vt)) = 14"
    using Cons.prems(1) by (simp add: claimed_update_length)
  have "fieldInRange i (vals (claimed_update rnd q vt) ! i) \<or>
      (\<not> isDiscrete (info ! i) \<and> (\<exists>vt\<in>set vts. sceneParamIndex (snd vt) = int i))"
  proof (cases "fieldInRange i (vals q ! i)")
    case True
    then show ?thesis
      using claimed_update_keeps [OF assms(1)] by blast
  next
    case False
    with Cons.prems(2) have d: "\<not> isDiscrete (info ! i)"
      and ex: "\<exists>vt'\<in>set (vt # vts). sceneParamIndex (snd vt') = int i"
      by blast+
    show ?thesis
    proof (cases "sceneParamIndex (snd vt) = int i")
      case True
      then have "fieldInRange i (vals (claimed_update rnd q vt) ! i)"
        using assms(1) d Cons.prems(1) by (intro claimed_update_establishes) simp_all
      then show ?thesis ..
    next
      case False
      with ex d show ?thesis by simp
    qed
  qed
  then show ?case
    using Cons.IH [OF len] by simp
qed

lemma written_active:
  assumes "written_by_macros eng mv i"
  shows "\<exists>vt\<in>set (active_targets eng mv). sceneParamIndex (snd vt) = int i"
proof -
  from assms obtain m t where m: "m \<in> set [0..<kNumMacros]" and nz: "\<not> mv ! m < 1 / 1000"
    and t: "t \<in> set (mappings eng ! m)" and idx: "sceneParamIndex t = int i"
    unfolding written_by_macros_def list_ex_iff by blast
  have "(mv ! m, t) \<in> set (active_targets eng mv)"
    unfolding active_targets_def set_concat set_map using m nz t by force
  with idx show ?thesis by force
qed

lemma MacroEngine_apply_inRange:
  assumes "sceneInRange p"
  shows "sceneInRange (MacroEngine_apply rnd eng p mv)"
proof -
  have len: "length (vals p) = 14"
    using assms by (simp add: sceneInRange_iff)
  have "length (vals (foldl (claimed_update rnd) q vts)) = length (vals q)" for q vts
    by (induction vts arbitrary: q) (simp_all add: claimed_update_length)
  moreover have "fieldInRange i (vals (foldl (claimed_update rnd) p vts) ! i)" if "i < 14" for i vts
    using that len assms by (intro fold_claimed_field) (simp_all add: sceneInRange_iff)
  ultimately show ?thesis
    by (simp add: MacroEngine_apply_claimed sceneInRange_iff len)
qed

lemma morph_with_length: "length (vals (morph_with rnd a b t)) = 14"
  by (simp add: morph_with_def kCount_def del: upt_Suc)

lemma morph_with_discrete:
  assumes "sceneInRange a" "sceneInRange b" "i < 14" "isDiscrete (info ! i)"
  shows "fieldInRange i (vals (morph_with rnd a b t) ! i)"
  using assms by (simp add: morph_with_nth morph_value_def sceneInRange_iff)

lemma morphedWithMacros_fields:
  assumes "bankInRange st"
  shows "length (vals (morphedWithMacros st)) = 14"
    and "i < 14 \<Longrightarrow>
         isDiscrete (info ! i) \<or>
         written_by_macros (macroEngine st)
           [macro1 (apvts st), macro2 (apvts st), macro3 (apvts st), macro4 (apvts st)] i \<Longrightarrow>
         fieldInRange i (vals (morphedWithMacros st) ! i)"
proof -
  let ?a = "scenes st ! nat (sceneIdx (sceneA (apvts st)))"
  let ?b = "scenes st ! nat (sceneIdx (sceneB (apvts st)))"
  let ?m = "morph32 ?a ?b (morphParam (apvts st))"
  let ?mv = "[macro1 (apvts st), macro2 (apvts st), macro3 (apvts st), macro4 (apvts st)]"
  have eq: "morphedWithMacros st
      = foldl (claimed_update round32) ?m (active_targets (macroEngine st) ?mv)"
    by (simp add: morphedWithMacros_def Let_def MacroEngine_apply_claimed)
  have idx: "nat (sceneIdx r) < length (scenes st)" for r
    using sceneIdx_bounds [of r] assms by (simp add: bankInRange_def)
  have a: "sceneInRange ?a" and b: "sceneInRange ?b"
    using assms idx by (simp_all add: bankInRange_def bank_nth)
  have len: "length (vals ?m) = 14"
    by (simp add: morph32_def morph_with_length)
  have "length (vals (foldl (claimed_update round32) q vts)) = length (vals q)" for q vts
    by (induction vts arbitrary: q) (simp_all add: claimed_update_length)
  then show "length (vals (morphedWithMacros st)) = 14"
    by (simp add: eq len)
  show "fieldInRange i (vals (morphedWithMacros st) ! i)"
    if i: "i < 14" and w: "isDiscrete (info ! i) \<or> written_by_macros (macroEngine st) ?mv i"
  proof (cases "isDiscrete (info ! i)")
    case True
    then have "fieldInRange i (vals ?m ! i)"
      unfolding morph32_def using a b i by (intro morph_with_discrete)
    then show ?thesis
      unfolding eq using i len by (intro fold_claimed_field) simp_all
  next
    case False
    with w have "\<exists>vt\<in>set (active_targets (macroEngine st) ?mv). sceneParamIndex (snd vt) = int i"
      by (intro written_active) simp
    with False show ?thesis
      unfolding eq using i len by (intro fold_claimed_field) simp_all
  qed
qed

lemma storeCurrentToScene_slots:
  assumes "bankInRange st" and "0 \<le> sceneIndex" and "sceneIndex < 8"
  shows "length (scenes (storeCurrentToScene sceneIndex st)) = 8"
    and "scenes (storeCurrentToScene sceneIndex st) ! nat sceneIndex = morphedWithMacros st"
    and "k \<noteq> nat sceneIndex \<Longrightarrow> scenes (storeCurrentToScene sceneIndex st) ! k = scenes st ! k"
proof -
  have "nat sceneIndex < 8" using assms(2,3) by linarith
  then have k: "nat sceneIndex < length (scenes st)"
    using assms(1) by (simp add: bankInRange_def kNumScenes_def)
  show "length (scenes (storeCurrentToScene sceneIndex st)) = 8"
    using assms by (simp add: storeCurrentToScene_def bankInRange_def kNumScenes_def)
  show "scenes (storeCurrentToScene sceneIndex st) ! nat sceneIndex = morphedWithMacros st"
    using assms(2,3) k by (simp add: storeCurrentToScene_def kNumScenes_def)
  show "scenes (storeCurrentToScene sceneIndex st) ! k = scenes st ! k" if "k \<noteq> nat sceneIndex"
    using assms(2,3) that by (simp add: storeCurrentToScene_def kNumScenes_def)
qed

lemma sceneInRange_createDefault: "sceneInRange createDefault"
  by (simp add: sceneInRange_def vals_createDefault kCount_def fieldInRange_def info_def
      upt_rec [of _ "numeral _"] upt_rec [of _ "Suc _"])

lemma bankInRange_defaultProcessor: "bankInRange defaultProcessor"
  by (simp add: bankInRange_def defaultProcessor_def kNumScenes_def list_all_iff
      sceneInRange_createDefault)

lemma delayFb_facts:
  "delayFb < 14" "\<not> isDiscrete (info ! delayFb)"
  "minVal (info ! delayFb) = 0" "maxVal (info ! delayFb) = 15938355 / 16777216"
  by (simp_all add: delayFb_def info_def)

lemma feedback_scenes:
  "vals sceneFbLow ! delayFb = 11744051 / 33554432"
  "vals sceneFbHigh ! delayFb = 15938355 / 16777216"
  "sceneInRange sceneFbLow" "sceneInRange sceneFbHigh"
proof -
  show "vals sceneFbLow ! delayFb = 11744051 / 33554432"
    "vals sceneFbHigh ! delayFb = 15938355 / 16777216"
    by (simp_all add: sceneFbLow_def sceneFbHigh_def vals_createDefault delayFb_def)
  show "sceneInRange sceneFbLow" "sceneInRange sceneFbHigh"
    unfolding sceneFbLow_def sceneFbHigh_def
    by (rule sceneInRange_update [OF sceneInRange_createDefault],
        simp add: fieldInRange_def delayFb_facts)+
qed

lemma bankInRange_feedbackProcessor: "bankInRange feedbackProcessor"
  by (simp add: bankInRange_def feedbackProcessor_def kNumScenes_def feedback_scenes
      sceneInRange_createDefault list_all_iff)

lemma round32_feedback:
  "round32 (20132659 / 33554432) = 5033165 / 8388608"
  "round32 (5033165 / 8388608) = 5033165 / 8388608"
  "round32 (31876711 / 33554432) = 3984589 / 4194304"
proof -
  have "ulp_exponent (20132659 / 33554432) = - 24"
    by (rule ulp_exponentI) (simp_all add: power_int_minus)
  then show "round32 (20132659 / 33554432) = 5033165 / 8388608"
    unfolding round32_def by (simp add: round_even_def Let_def power_int_minus)
  show "round32 (5033165 / 8388608) = 5033165 / 8388608"
    by (rule round32_binary [where n = 5033165 and e = "- 23"]) (simp_all add: power_int_minus)
  have "ulp_exponent (31876711 / 33554432) = - 24"
    by (rule ulp_exponentI) (simp_all add: power_int_minus)
  then show "round32 (31876711 / 33554432) = 3984589 / 4194304"
    unfolding round32_def by (simp add: round_even_def Let_def power_int_minus)
qed

lemma sceneIdx_0_1: "sceneIdx 0 = 0" "sceneIdx 1 = 1"
  by (simp_all add: sceneIdx_def to_int_def std_clamp_def kNumScenes_def)

lemma feedback_stored:
  "vals (scenes (storeCurrentToScene 2 feedbackProcessor) ! 2) ! delayFb = 15938356 / 16777216"
proof -
  have m: "morphedWithMacros feedbackProcessor = morph32 sceneFbLow sceneFbHigh 1"
    by (simp add: morphedWithMacros_def Let_def feedbackProcessor_def defaultApvts_def
        sceneIdx_0_1 MacroEngine_apply_unfold apply_macro_def)
  have "morph_value round32 sceneFbLow sceneFbHigh 1 delayFb
      = round32 (11744051 / 33554432
          + round32 (1 * round32 (15938355 / 16777216 - 11744051 / 33554432)))"
    by (simp only: morph_value_def delayFb_facts feedback_scenes if_False)
  also have "\<dots> = 15938356 / 16777216"
    by (simp add: round32_feedback)
  finally have "vals (morph32 sceneFbLow sceneFbHigh 1) ! delayFb = 15938356 / 16777216"
    by (simp add: morph32_def morph_with_nth delayFb_facts)
  then show ?thesis
    using storeCurrentToScene_slots(2) [OF bankInRange_feedbackProcessor, of 2]
    by (simp add: m)
qed

text \<open>
  C1, as claimed: every operation that writes a scene slot keeps every value of the bank
  within its field's range, for every input value.  \<open>setSceneParam\<close> stores the value
  it is given: writing 30000 to the cutoff of slot 0 of a bank that is in range leaves the
  cutoff at 30000, above the maximum 20000.  \<open>storeCurrentToScene\<close> stores the
  interpolated scene unclamped: with the delay feedback \<open>0.35f\<close> in scene A and
  \<open>0.95f\<close> in scene B, the morph factor 1 and all macros at 0, a bank that is in range
  receives the feedback 15938356/16777216, one binary32 step above the maximum \<open>0.95f\<close>
  = 15938355/16777216.
\<close>

theorem scene_write_leaves_range:
  "bankInRange defaultProcessor \<and>
   vals (scenes (setSceneParam 0 (int filtCutoff) 30000 defaultProcessor) ! 0) ! filtCutoff = 30000 \<and>
   maxVal (info ! filtCutoff) = 20000 \<and>
   \<not> bankInRange (setSceneParam 0 (int filtCutoff) 30000 defaultProcessor) \<and>
   bankInRange feedbackProcessor \<and>
   morphParam (apvts feedbackProcessor) = 1 \<and>
   vals (scenes (storeCurrentToScene 2 feedbackProcessor) ! 2) ! delayFb = 15938356 / 16777216 \<and>
   maxVal (info ! delayFb) = 15938355 / 16777216 \<and>
   \<not> bankInRange (storeCurrentToScene 2 feedbackProcessor)"
proof -
  have w: "vals (scenes (setSceneParam 0 (int filtCutoff) 30000 defaultProcessor) ! 0) ! filtCutoff = 30000"
    by (simp add: setSceneParam_def defaultProcessor_def kNumScenes_def kCount_def filtCutoff_def
        vals_createDefault)
  have "\<not> fieldInRange (nat (int filtCutoff)) 30000"
    by (simp add: fieldInRange_def info_cutoff)
  then have n1: "\<not> bankInRange (setSceneParam 0 (int filtCutoff) 30000 defaultProcessor)"
    using setSceneParam_inRange_iff [OF bankInRange_defaultProcessor, of 0 "int filtCutoff" 30000]
    by (simp add: filtCutoff_def)
  have n2: "\<not> bankInRange (storeCurrentToScene 2 feedbackProcessor)"
  proof
    assume r: "bankInRange (storeCurrentToScene 2 feedbackProcessor)"
    then have "sceneInRange (scenes (storeCurrentToScene 2 feedbackProcessor) ! 2)"
      by (intro bank_nth) (simp_all add: bankInRange_def kNumScenes_def)
    then have "fieldInRange delayFb (vals (scenes (storeCurrentToScene 2 feedbackProcessor) ! 2) ! delayFb)"
      using delayFb_facts(1) by (simp add: sceneInRange_iff)
    then show False
      by (simp add: feedback_stored fieldInRange_def delayFb_facts)
  qed
  have t: "morphParam (apvts feedbackProcessor) = 1"
    by (simp add: feedbackProcessor_def)
  show ?thesis
    using bankInRange_defaultProcessor w n1 bankInRange_feedbackProcessor t feedback_stored n2
    by (simp add: info_cutoff delayFb_facts)
qed

text \<open>
  C1, amended.  A bank that is in range stays in range under \<open>setSceneParam\<close> when
  the value lies in the range of the addressed field (for valid indices exactly then),
  under \<open>storeScene\<close> when the raw module parameter values lie in their ranges, and
  under the scene restoration of \<open>setStateInformation\<close> when every stored attribute
  lies in the range of its field.  \<open>storeCurrentToScene\<close> with a valid index leaves a
  bank of eight slots, replaces the addressed slot by a scene of fourteen values and leaves
  every other slot as it was; in the stored scene every discrete field and every field that
  is the target of a macro that is not passed over lies in its range.  \<open>MacroEngine::apply\<close>
  keeps a scene that is in range in range, whatever the rounding.  The interpolation followed
  by the macro engine keeps scenes that are in range in range when it is computed in exact
  arithmetic with a morph factor in \<open>[0, 1]\<close>.
\<close>

theorem scene_writes_keep_range:
  "bankInRange st \<longrightarrow>
     (fieldInRange (nat paramIndex) v \<longrightarrow> bankInRange (setSceneParam sceneIndex paramIndex v st)) \<and>
     (0 \<le> sceneIndex \<and> sceneIndex < 8 \<and> 0 \<le> paramIndex \<and> paramIndex < 14 \<longrightarrow>
        (bankInRange (setSceneParam sceneIndex paramIndex v st) \<longleftrightarrow> fieldInRange (nat paramIndex) v)) \<and>
     (list_all (\<lambda>p. fieldInRange p (moduleParams (apvts st) p)) [0..<kCount] \<longrightarrow>
        bankInRange (storeScene sceneIndex st)) \<and>
     (stateXmlInRange xml \<longrightarrow> bankInRange (setStateInformation xml st)) \<and>
     (0 \<le> sceneIndex \<and> sceneIndex < 8 \<longrightarrow>
        length (scenes (storeCurrentToScene sceneIndex st)) = 8 \<and>
        length (vals (scenes (storeCurrentToScene sceneIndex st) ! nat sceneIndex)) = 14 \<and>
        (i < 14 \<and>
         (isDiscrete (info ! i) \<or>
          written_by_macros (macroEngine st)
            [macro1 (apvts st), macro2 (apvts st), macro3 (apvts st), macro4 (apvts st)] i) \<longrightarrow>
           fieldInRange i (vals (scenes (storeCurrentToScene sceneIndex st) ! nat sceneIndex) ! i)) \<and>
        (k \<noteq> nat sceneIndex \<longrightarrow>
           scenes (storeCurrentToScene sceneIndex st) ! k = scenes st ! k)) \<and>
     (sceneInRange p \<longrightarrow> sceneInRange (MacroEngine_apply rnd eng p mv)) \<and>
     (sceneInRange a \<and> sceneInRange b \<and> 0 \<le> t \<and> t \<le> 1 \<longrightarrow>
        sceneInRange (MacroEngine_apply (\<lambda>x. x) eng (morph a b t) mv))"
proof (intro impI conjI)
  assume st: "bankInRange st"
  show "bankInRange (setSceneParam sceneIndex paramIndex v st)" if "fieldInRange (nat paramIndex) v"
    using st that by (rule setSceneParam_inRange)
  show "bankInRange (setSceneParam sceneIndex paramIndex v st) \<longleftrightarrow> fieldInRange (nat paramIndex) v"
    if "0 \<le> sceneIndex \<and> sceneIndex < 8 \<and> 0 \<le> paramIndex \<and> paramIndex < 14"
    using st that by (intro setSceneParam_inRange_iff) simp_all
  show "bankInRange (storeScene sceneIndex st)"
    if "list_all (\<lambda>p. fieldInRange p (moduleParams (apvts st) p)) [0..<kCount]"
    using st that by (intro storeScene_inRange) (simp_all add: all_below_14 kCount_def)
  show "bankInRange (setStateInformation xml st)" if "stateXmlInRange xml"
    using st that by (rule setStateInformation_inRange)
  show "sceneInRange (MacroEngine_apply rnd eng p mv)" if "sceneInRange p"
    using that by (rule MacroEngine_apply_inRange)
  show "sceneInRange (MacroEngine_apply (\<lambda>x. x) eng (morph a b t) mv)"
    if "sceneInRange a \<and> sceneInRange b \<and> 0 \<le> t \<and> t \<le> 1"
    using that by (intro MacroEngine_apply_inRange morph_inRange) simp_all
next
  assume st: "bankInRange st" and k: "0 \<le> sceneIndex \<and> sceneIndex < 8"
  note slots = storeCurrentToScene_slots [OF st, of sceneIndex]
  show "length (scenes (storeCurrentToScene sceneIndex st)) = 8"
    using k by (intro slots(1)) simp_all
  have stored: "scenes (storeCurrentToScene sceneIndex st) ! nat sceneIndex = morphedWithMacros st"
    using k by (intro slots(2)) simp_all
  show "length (vals (scenes (storeCurrentToScene sceneIndex st) ! nat sceneIndex)) = 14"
    unfolding stored using st by (rule morphedWithMacros_fields(1))
  show "fieldInRange i (vals (scenes (storeCurrentToScene sceneIndex st) ! nat sceneIndex) ! i)"
    if "i < 14 \<and>
         (isDiscrete (info ! i) \<or>
          written_by_macros (macroEngine st)
            [macro1 (apvts st), macro2 (apvts st), macro3 (apvts st), macro4 (apvts st)] i)"
    unfolding stored using st that by (intro morphedWithMacros_fields(2)) simp_all
  show "scenes (storeCurrentToScene sceneIndex st) ! k = scenes st ! k" if "k \<noteq> nat sceneIndex"
    using k that by (intro slots(3)) simp_all
qed

lemma macroProcessor_facts:
  "bankInRange (defaultProcessor\<lparr>apvts := defaultApvts\<lparr>macro1 := 1\<rparr>\<rparr>)"
  "list_all (\<lambda>p. fieldInRange p
      (moduleParams (apvts (defaultProcessor\<lparr>apvts := defaultApvts\<lparr>macro1 := 1\<rparr>\<rparr>)) p)) [0..<kCount]"
  "written_by_macros (macroEngine (defaultProcessor\<lparr>apvts := defaultApvts\<lparr>macro1 := 1\<rparr>\<rparr>))
     [1, 0, 0, 0] filtCutoff"
proof -
  show "bankInRange (defaultProcessor\<lparr>apvts := defaultApvts\<lparr>macro1 := 1\<rparr>\<rparr>)"
    using bankInRange_defaultProcessor by (simp add: bankInRange_def)
  show "list_all (\<lambda>p. fieldInRange p
      (moduleParams (apvts (defaultProcessor\<lparr>apvts := defaultApvts\<lparr>macro1 := 1\<rparr>\<rparr>)) p)) [0..<kCount]"
    by (simp add: defaultApvts_def kCount_def fieldInRange_def info_def
        upt_rec [of _ "numeral _"] upt_rec [of _ "Suc _"])
  show "written_by_macros (macroEngine (defaultProcessor\<lparr>apvts := defaultApvts\<lparr>macro1 := 1\<rparr>\<rparr>))
     [1, 0, 0, 0] filtCutoff"
    by (simp add: written_by_macros_def defaultProcessor_def initDefaultMappings_def
        kNumMacros_def upt_4)
qed

theorem scene_writes_keep_range_witness:
  "bankInRange (defaultProcessor\<lparr>apvts := defaultApvts\<lparr>macro1 := 1\<rparr>\<rparr>) \<and>
   fieldInRange (nat 1) 200 \<and> (0::int) \<le> 2 \<and> (2::int) < 8 \<and> (0::int) \<le> 1 \<and> (1::int) < 14 \<and>
   list_all (\<lambda>p. fieldInRange p
      (moduleParams (apvts (defaultProcessor\<lparr>apvts := defaultApvts\<lparr>macro1 := 1\<rparr>\<rparr>)) p)) [0..<kCount] \<and>
   stateXmlInRange (Some (Preset None
      (Some [\<lparr>sx_index = Some 0, sx_attrs = (\<lambda>p. if p = 1 then Some 200 else None)\<rparr>]) None)) \<and>
   filtCutoff < 14 \<and>
   written_by_macros (macroEngine (defaultProcessor\<lparr>apvts := defaultApvts\<lparr>macro1 := 1\<rparr>\<rparr>))
     [1, 0, 0, 0] filtCutoff \<and>
   (3::nat) \<noteq> nat 2 \<and>
   sceneInRange createDefault \<and> sceneInRange sceneFbLow \<and> sceneInRange sceneFbHigh \<and>
   (0::real) \<le> 1 / 2 \<and> (1 / 2 :: real) \<le> 1 \<and>
   bankInRange (setSceneParam 2 1 200 (defaultProcessor\<lparr>apvts := defaultApvts\<lparr>macro1 := 1\<rparr>\<rparr>)) \<and>
   bankInRange (storeScene 2 (defaultProcessor\<lparr>apvts := defaultApvts\<lparr>macro1 := 1\<rparr>\<rparr>)) \<and>
   bankInRange (setStateInformation (Some (Preset None
      (Some [\<lparr>sx_index = Some 0, sx_attrs = (\<lambda>p. if p = 1 then Some 200 else None)\<rparr>]) None))
      (defaultProcessor\<lparr>apvts := defaultApvts\<lparr>macro1 := 1\<rparr>\<rparr>)) \<and>
   length (vals (scenes (storeCurrentToScene 2
      (defaultProcessor\<lparr>apvts := defaultApvts\<lparr>macro1 := 1\<rparr>\<rparr>)) ! 2)) = 14 \<and>
   fieldInRange filtCutoff (vals (scenes (storeCurrentToScene 2
      (defaultProcessor\<lparr>apvts := defaultApvts\<lparr>macro1 := 1\<rparr>\<rparr>)) ! 2) ! filtCutoff) \<and>
   scenes (storeCurrentToScene 2 (defaultProcessor\<lparr>apvts := defaultApvts\<lparr>macro1 := 1\<rparr>\<rparr>)) ! 3
     = createDefault \<and>
   sceneInRange (MacroEngine_apply round32 initDefaultMappings createDefault [1, 0, 0, 0]) \<and>
   sceneInRange (MacroEngine_apply (\<lambda>x. x) initDefaultMappings
      (morph sceneFbLow sceneFbHigh (1 / 2)) [1, 0, 0, 0])"
proof -
  have a: "fieldInRange (nat 1) 200"
    by (simp add: fieldInRange_def info_def)
  have d: "stateXmlInRange (Some (Preset None
      (Some [\<lparr>sx_index = Some 0, sx_attrs = (\<lambda>p. if p = 1 then Some 200 else None)\<rparr>]) None))"
    by (simp add: stateXmlInRange_def sceneXmlInRange_def kCount_def fieldInRange_def info_def
        upt_rec [of _ "numeral _"] upt_rec [of _ "Suc _"])
  have c: "filtCutoff < 14"
    by (simp add: filtCutoff_def)
  have m: "macro2 defaultApvts = 0" "macro3 defaultApvts = 0" "macro4 defaultApvts = 0"
    by (simp_all add: defaultApvts_def)
  have s3: "scenes defaultProcessor ! 3 = createDefault"
    by (simp add: defaultProcessor_def kNumScenes_def)
  show ?thesis
    using scene_writes_keep_range [where st = "defaultProcessor\<lparr>apvts := defaultApvts\<lparr>macro1 := 1\<rparr>\<rparr>"
        and paramIndex = 1 and v = 200 and sceneIndex = 2 and i = filtCutoff and k = 3
        and xml = "Some (Preset None
          (Some [\<lparr>sx_index = Some 0, sx_attrs = (\<lambda>p. if p = 1 then Some 200 else None)\<rparr>]) None)"
        and p = createDefault and rnd = round32 and eng = initDefaultMappings
        and mv = "[1, 0, 0, 0]" and a = sceneFbLow and b = sceneFbHigh and t = "1 / 2"]
      macroProcessor_facts a d c sceneInRange_createDefault feedback_scenes(3,4)
    by (simp add: m s3)
qed

section \<open>Properties of the delay module\<close>

text \<open>
  C7.  After \<open>setParameters\<close>, whatever feedback value was requested, the coefficient
  \<open>fb\<close> that \<open>process\<close> multiplies the filtered sample with is the smaller of the
  request and 0.95, hence never above 0.95.
\<close>

theorem setParameters_feedback_cap:
  "fb (setParameters J syncIndex feedback tone01 width01 pingPong bpm st)
     = std_min feedback (95 / 100) \<and>
   fb (setParameters J syncIndex feedback tone01 width01 pingPong bpm st) \<le> 95 / 100"
  by (simp add: setParameters_def Let_def std_min_def)

theorem setParameters_feedback_cap_witness:
  "fb (setParameters exampleOps 3 2 (1 / 2) 1 True 120 pingPongState) = 95 / 100 \<and>
   fb (setParameters exampleOps 3 (1 / 4) (1 / 2) 1 True 120 pingPongState) = 1 / 4"
  using setParameters_feedback_cap [of exampleOps 3 2 "1 / 2" 1 True 120 pingPongState]
    setParameters_feedback_cap [of exampleOps 3 "1 / 4" "1 / 2" 1 True 120 pingPongState]
  by (simp add: std_min_def)

text \<open>
  C8.  \<open>setParameters\<close> hands to the smoothed delay time the target
  \<open>beats (syncIndex) \<sqdot> (60 / bpm) \<sqdot> sampleRate\<close>, clamped to \<open>[1, bufSize - 1]\<close>, where
  the sync indices 0 to 7 stand for 0.125, 0.25, 0.5, 1, 2, 4, 0.75 and 1.5 beats and a
  tempo of 20 BPM or less is replaced by 120.  After \<open>prepare\<close> at 48000 Hz the capacity
  is 96000 samples, and sync index 3 at 120 BPM gives the target 24000.
\<close>

theorem setParameters_delay_target:
  "(0 \<le> syncIndex \<and> syncIndex \<le> 7 \<longrightarrow>
      smoothDelay (setParameters J syncIndex feedback tone01 width01 pingPong bpm st) =
        setTargetValue J
          (std_clamp
             (noteBeats ! nat syncIndex * (60 / (if bpm \<le> 20 then 120 else bpm)) * sampleRate st)
             1 (real_of_int (bufSize st - 1)))
          (smoothDelay st)) \<and>
   noteBeats = [1 / 8, 1 / 4, 1 / 2, 1, 2, 4, 3 / 4, 3 / 2] \<and>
   bufSize (prepare J 48000 2 st) = 96000 \<and>
   smoothDelay (setParameters J 3 feedback tone01 width01 pingPong 120 (prepare J 48000 2 st)) =
     setTargetValue J 24000 (smoothDelay (prepare J 48000 2 st))"
proof -
  have gen: "smoothDelay (setParameters J syncIndex feedback tone01 width01 pingPong bpm st) =
        setTargetValue J
          (std_clamp
             (noteBeats ! nat syncIndex * (60 / (if bpm \<le> 20 then 120 else bpm)) * sampleRate st)
             1 (real_of_int (bufSize st - 1)))
          (smoothDelay st)" if "0 \<le> syncIndex" "syncIndex \<le> 7"
    using that by (simp add: setParameters_def Let_def std_clamp_def not_less)
  have tbl: "noteBeats = [1 / 8, 1 / 4, 1 / 2, 1, 2, 4, 3 / 4, 3 / 2]"
    by (simp add: noteBeats_def)
  have cap: "bufSize (prepare J 48000 2 st) = 96000"
    and sr: "sampleRate (prepare J 48000 2 st) = 48000"
    by (simp_all add: prepare_def Let_def to_int_def)
  have b3: "noteBeats ! 3 = 1"
    by (simp add: noteBeats_def)
  have scen: "smoothDelay (setParameters J 3 feedback tone01 width01 pingPong 120 (prepare J 48000 2 st)) =
     setTargetValue J 24000 (smoothDelay (prepare J 48000 2 st))"
    by (simp add: setParameters_def Let_def cap sr b3 std_clamp_def)
  show ?thesis using gen tbl cap scen by simp
qed

theorem setParameters_delay_target_witness:
  "(0::int) \<le> 3 \<and> (3::int) \<le> 7 \<and>
   smoothDelay (setParameters exampleOps 3 (1 / 2) (1 / 2) 1 True 10 pingPongState) = 24000 \<and>
   smoothDelay (setParameters exampleOps 3 (1 / 2) (1 / 2) 1 True 120
      (prepare exampleOps 48000 2 pingPongState)) = 24000"
proof -
  have t: "setTargetValue exampleOps = (\<lambda>v s. v)"
    by (simp add: exampleOps_def)
  have s: "sampleRate pingPongState = 48000" "bufSize pingPongState = 96000"
    by (simp_all add: pingPongState_def)
  have b: "noteBeats ! 3 = 1"
    by (simp add: noteBeats_def)
  show ?thesis
    using setParameters_delay_target [of 3 exampleOps "1 / 2" "1 / 2" 1 True 10 pingPongState]
    by (simp add: t s b std_clamp_def)
qed

lemma upt_2: "[0..<2] = [0, 1]"
  by (simp add: upt_rec [of _ "numeral _"] upt_rec [of _ "Suc _"])

lemma channel_step_written:
  assumes "ch < length (delayLine st)" and "nat (writePos st ! ch) < length (delayLine st ! ch)"
  shows "delayLine (fst (channel_step J s delayed channels (st, buffer) ch)) ! ch
            ! nat (writePos st ! ch)
     = buffer ! ch ! s + code_feedbackSample J delayed channels st ch"
  using assms by (simp add: channel_step_def code_feedbackSample_def Let_def split_beta)

lemma channel_step_other_line:
  "ch' \<noteq> ch \<Longrightarrow>
     delayLine (fst (channel_step J s delayed channels stb ch)) ! ch' = delayLine (fst stb) ! ch'"
  by (simp add: channel_step_def Let_def split_beta)

lemma feedback_without_pingpong:
  "\<not> (isPingPong st \<and> channels = 2) \<Longrightarrow>
     code_feedbackSample J delayed channels st ch = spec_feedbackSample J delayed channels st ch"
  by (auto simp: code_feedbackSample_def spec_feedbackSample_def)

lemma process_one_sample_stereo:
  "process J st [[x0], [x1]] =
     (let (currentDelay, sm) = getNextValue J (smoothDelay st);
          st1 = st\<lparr>smoothDelay := sm\<rparr>;
          delayed = [read_delayed st1 currentDelay 0, read_delayed st1 currentDelay 1]
      in channel_step J 0 delayed 2 (channel_step J 0 delayed 2 (st1, [[x0], [x1]]) 0) 1)"
proof -
  have ch: "std_min (length [[x0], [x1]]) 2 = (2::nat)"
    by (simp add: std_min_def)
  have ns: "(case [[x0], [x1]] of [] \<Rightarrow> 0 | c # cs \<Rightarrow> length c) = 1"
    by simp
  have "process J st [[x0], [x1]] = process_sample J 2 (st, [[x0], [x1]]) 0"
    unfolding process_def Let_def ch ns by simp
  then show ?thesis
    by (simp add: process_sample_def Let_def upt_2 split_beta)
qed

lemma pingPong_delayed:
  "read_delayed (pingPongState\<lparr>smoothDelay := 24000\<rparr>) 24000 0 = 1"
  "read_delayed (pingPongState\<lparr>smoothDelay := 24000\<rparr>) 24000 (Suc 0) = 0"
  by (simp_all add: read_delayed_def pingPongState_def Let_def)

lemma svf_after_impulse:
  "fst (svf_lowpass 1 (1000 / 707) 0 (snd (svf_lowpass 1 (1000 / 707) 1 (0, 0)))) = 707 / 1207"
  by (simp add: svf_lowpass_def Let_def)

lemma svf_at_rest: "svf_lowpass 1 (1000 / 707) 0 (0, 0) = (0, (0, 0))"
  by (simp add: svf_lowpass_def Let_def)

lemma pingPong_code_feedback:
  "code_feedbackSample exampleOps [1, 0] 2 (pingPongState\<lparr>smoothDelay := 24000\<rparr>) 0 = 707 / 2414"
  by (simp add: code_feedbackSample_def exampleOps_def pingPongState_def svf_after_impulse)

text \<open>
  C9.  The claim: under ping-pong with two channels the value written at the write
  position of channel \<open>ch\<close> is the input sample plus the opposite channel's delayed
  sample passed once through the channel's tone filter, times the feedback coefficient.
  The code runs the channel's filter twice per sample under ping-pong: first on the
  channel's own delayed sample (the result is dropped, the filter state is not), then on
  the opposite channel's.  In the state \<open>pingPongState\<close> the left delayed sample is the
  impulse 1 and the right one is 0, the input is silence: the claim gives the value 0 for
  the left delay line at position 24001, \<open>process\<close> writes 707/2414 there.
\<close>

theorem pingPong_filter_runs_twice:
  "read_delayed pingPongState 24000 0 = 1 \<and> read_delayed pingPongState 24000 1 = 0 \<and>
   [[0], [0]] ! 0 ! 0 + spec_feedbackSample exampleOps [1, 0] 2 pingPongState 0 = 0 \<and>
   delayLine (fst (process exampleOps pingPongState [[0], [0]])) ! 0 ! 24001 = 707 / 2414"
proof -
  let ?st1 = "pingPongState\<lparr>smoothDelay := 24000\<rparr>"
  have rd: "read_delayed pingPongState 24000 0 = 1 \<and> read_delayed pingPongState 24000 1 = 0"
    by (simp add: read_delayed_def pingPongState_def Let_def)
  have sp: "[[0], [0]] ! 0 ! 0 + spec_feedbackSample exampleOps [1, 0] 2 pingPongState 0 = 0"
    by (simp add: spec_feedbackSample_def exampleOps_def pingPongState_def svf_at_rest)
  have p: "process exampleOps pingPongState [[0], [0]] =
      channel_step exampleOps 0 [1, 0] 2 (channel_step exampleOps 0 [1, 0] 2 (?st1, [[0], [0]]) 0) 1"
  proof -
    have g: "getNextValue exampleOps (smoothDelay pingPongState) = (24000, 24000)"
      by (simp add: exampleOps_def pingPongState_def)
    show ?thesis
      unfolding process_one_sample_stereo g by (simp add: pingPong_delayed Let_def)
  qed
  have "delayLine (fst (process exampleOps pingPongState [[0], [0]])) ! 0
      = delayLine (fst (channel_step exampleOps 0 [1, 0] 2 (?st1, [[0], [0]]) 0)) ! 0"
    unfolding p by (simp add: channel_step_other_line)
  moreover have "delayLine (fst (channel_step exampleOps 0 [1, 0] 2 (?st1, [[0], [0]]) 0)) ! 0
        ! nat (writePos ?st1 ! 0)
      = [[0], [0]] ! 0 ! 0 + code_feedbackSample exampleOps [1, 0] 2 ?st1 0"
    by (rule channel_step_written) (simp_all add: pingPongState_def)
  moreover have "nat (writePos ?st1 ! 0) = 24001"
    by (simp add: pingPongState_def)
  ultimately have "delayLine (fst (process exampleOps pingPongState [[0], [0]])) ! 0 ! 24001
      = 707 / 2414"
    by (simp add: pingPong_code_feedback)
  then show ?thesis using rd sp by simp
qed

end
